theory Spec2Isabelle
  imports Complex_Main "HOL-Library.Sublist"
begin

section \<open>Strings\<close>

text \<open>
  JavaScript strings are modelled as \<^typ>\<open>string\<close>. The numbers of the agent loop
  (turns, budget, token counts) are modelled as \<^typ>\<open>real\<close>: the finite numbers, which
  need not be integral, on which the loop's additions, its decrement and its comparisons
  are exact. Line numbers are modelled as \<^typ>\<open>int\<close>.
\<close>

text \<open>\<^verbatim>\<open>Array.prototype.join\<close>.\<close>

fun join :: "string \<Rightarrow> string list \<Rightarrow> string" where
  "join sep [] = []"
| "join sep [x] = x"
| "join sep (x # y # ys) = x @ sep @ join sep (y # ys)"

definition digit_char :: "nat \<Rightarrow> char" where
  "digit_char d = ''0123456789'' ! d"

function string_of_nat :: "nat \<Rightarrow> string" where
  "string_of_nat n =
     (if n < 10 then [digit_char n] else string_of_nat (n div 10) @ [digit_char (n mod 10)])"
  by pat_completeness auto
termination
  by (relation "measure id") auto

declare string_of_nat.simps [simp del]

text \<open>\<^verbatim>\<open>String(n)\<close> on an integral number.\<close>

definition String :: "int \<Rightarrow> string" where
  "String i = (if i < 0 then CHR ''-'' # string_of_nat (nat (- i)) else string_of_nat (nat i))"

text \<open>
  \<^verbatim>\<open>String(x)\<close> on a number that need not be integral, in plain decimal notation:
  the integral part and, when there is a fraction, a point and the digits of the
  fraction (at most \<open>n\<close> of them). This is the text that JavaScript gives for the
  integers below \<open>10\<^sup>2\<^sup>1\<close> and for the numbers with a short decimal expansion
  such as \<open>2.5\<close>.
\<close>

function fraction_digits :: "nat \<Rightarrow> real \<Rightarrow> string" where
  "fraction_digits n f =
     (if n = 0 \<or> f = 0 then []
      else digit_char (nat \<lfloor>10 * f\<rfloor>) # fraction_digits (n - 1) (frac (10 * f)))"
  by pat_completeness auto
termination
  by (relation "measure fst") auto

declare fraction_digits.simps [simp del]

definition unsigned_number :: "real \<Rightarrow> string" where
  "unsigned_number x =
     string_of_nat (nat \<lfloor>x\<rfloor>)
     @ (if frac x = 0 then [] else CHR ''.'' # fraction_digits 20 (frac x))"

definition String_number :: "real \<Rightarrow> string" where
  "String_number x = (if x < 0 then CHR ''-'' # unsigned_number (- x) else unsigned_number x)"

section \<open>The tool-calling protocol (types/models.ts, agent/types.ts)\<close>

type_synonym args = "(string \<times> string) list"

record ToolDefinition =
  td_name :: string
  td_description :: string
  td_inputSchema :: args

record ToolCall =
  tc_id :: string
  tc_name :: string
  tc_arguments :: args

record ToolResult =
  tr_toolCallId :: string
  tr_content :: string
  tr_isError :: "bool option"

datatype Role = System | User | Assistant | Tool_result

record ChatMessage =
  role :: Role
  content :: string
  toolCalls :: "ToolCall list option"
  toolCallId :: "string option"

record Usage =
  inputTokens :: real
  outputTokens :: real

text \<open>The fields of \<^verbatim>\<open>ModelResponse\<close> that the loop reads.\<close>

record ModelResponse =
  resp_content :: string
  resp_usage :: "Usage option"
  resp_toolCalls :: "ToolCall list option"

record ModelRequestOptions =
  req_role :: string
  req_messages :: "ChatMessage list"
  req_tools :: "ToolDefinition list option"

record AgentConfig =
  maxTurns :: real
  maxTokenBudget :: real
  systemPrompt :: string
  availableTools :: "ToolDefinition list"

datatype ToolId = Dead_code | Lint | Comments | Commit | Tldr

datatype AgentAction =
    Act_tool_call ToolId string args
  | Act_confirmation_required ToolId string args string
  | Act_response string real real
  | Act_error string

text \<open>
  The registry table of tools/index.ts is a parameter of the model: a lookup
  \<open>getToolByCommand\<close> from a tool name to its entry, of which the loop reads the
  four fields below.
\<close>

record ToolRegistryEntry =
  te_id :: ToolId
  te_name :: string
  te_description :: string
  te_invocation :: string

type_synonym registry = "string \<Rightarrow> ToolRegistryEntry option"

text \<open>
  What \<^verbatim>\<open>sendRequest\<close> throws or rejects with: an \<^verbatim>\<open>Error\<close> object, given by
  what its \<^verbatim>\<open>message\<close> converts to in the template literal, or any other value,
  given by what \<^verbatim>\<open>String(err)\<close> returns. The conversion is \<open>None\<close> when it throws
  itself (a symbol as message, an object without \<^verbatim>\<open>toString\<close> as value).
\<close>

datatype thrown = Error_object "string option" | Other_value "string option"

text \<open>
  An exception that leaves the generator and reaches the host: the one that the
  conversion raised (a \<^verbatim>\<open>TypeError\<close> for a symbol and for an object without
  \<^verbatim>\<open>toString\<close>, such as \<^verbatim>\<open>Object.create(null)\<close>).
\<close>

datatype host_exception = Conversion_exception

text \<open>
  The two collaborators. The provider answers the k-th request as a function of the
  requests sent so far (the last one is the current request); the host answers a
  yielded tool action as a function of the actions yielded so far (the last one is the
  pending action), with \<open>None\<close> for a resume without a result.
\<close>

type_synonym provider = "ModelRequestOptions list \<Rightarrow> thrown + ModelResponse"
type_synonym host = "AgentAction list \<Rightarrow> ToolResult option"

section \<open>The system prompt (agent/system-prompt.ts)\<close>

definition BASE_SYSTEM_PROMPT :: string where
  "BASE_SYSTEM_PROMPT = join [CHR 10]
     [''You are AIDev, an AI-powered developer toolkit assistant.'',
      ''You help developers with code analysis, commit workflows, and change summarization.'',
      '''',
      ''You have access to the following tools. Use them when they would help answer the user's question.'',
      ''For read-only analysis tools, invoke them directly.'',
      ''For destructive or modifying tools, explain what you plan to do and wait for confirmation.'',
      '''']"

definition tool_line :: "ToolDefinition \<Rightarrow> string" where
  "tool_line tool = ''- '' @ td_name tool @ '': '' @ td_description tool"

definition constraint_lines :: "string list" where
  "constraint_lines =
     [''Constraints:'',
      ''- All destructive actions (commits, comment pruning) must be proposed for user approval.'',
      ''- Never auto-apply file modifications or git operations.'',
      ''- Be concise and technical. Prioritize clarity.'']"

definition buildSystemPrompt :: "AgentConfig \<Rightarrow> string" where
  "buildSystemPrompt config =
     (let parts0 = (if systemPrompt config \<noteq> [] then [systemPrompt config, '''']
                    else [BASE_SYSTEM_PROMPT]);
          parts1 = (if length (availableTools config) > 0
                    then parts0 @ [''Available tools:''] @ map tool_line (availableTools config) @ ['''']
                    else parts0)
      in join [CHR 10] (parts1 @ constraint_lines))"

section \<open>The agent loop (agent/loop.ts)\<close>

definition MIN_TOKEN_BUDGET_THRESHOLD :: real where
  "MIN_TOKEN_BUDGET_THRESHOLD = 100"

text \<open>
  The generator's local variables, together with what an observer sees: the requests
  sent to the provider and the actions yielded to the host, both in order, and the
  exception with which the generator ended, if it did not return.
\<close>

record run_state =
  messages :: "ChatMessage list"
  totalInputTokens :: real
  totalOutputTokens :: real
  requests :: "ModelRequestOptions list"
  yielded :: "AgentAction list"
  uncaught :: "host_exception option"

definition push_message :: "ChatMessage \<Rightarrow> run_state \<Rightarrow> run_state" where
  "push_message m st = st\<lparr>messages := messages st @ [m]\<rparr>"

definition yield :: "AgentAction \<Rightarrow> run_state \<Rightarrow> run_state" where
  "yield a st = st\<lparr>yielded := yielded st @ [a]\<rparr>"

definition unknown_tool_message :: "AgentConfig \<Rightarrow> ToolCall \<Rightarrow> ChatMessage" where
  "unknown_tool_message config toolCall =
     (let availableNames = join '', '' (map td_name (availableTools config))
      in \<lparr>role = Tool_result,
          content = ''Unknown tool: \"'' @ tc_name toolCall @ ''\". Available tools: '' @ availableNames,
          toolCalls = None,
          toolCallId = Some (tc_id toolCall)\<rparr>)"

definition host_result_message :: "ToolResult \<Rightarrow> ChatMessage" where
  "host_result_message toolResult =
     \<lparr>role = Tool_result, content = tr_content toolResult, toolCalls = None,
      toolCallId = Some (tr_toolCallId toolResult)\<rparr>"

definition skipped_message :: "ToolCall \<Rightarrow> ChatMessage" where
  "skipped_message toolCall =
     \<lparr>role = Tool_result, content = ''Tool execution was skipped or denied by the user.'',
      toolCalls = None, toolCallId = Some (tc_id toolCall)\<rparr>"

definition action_for :: "ToolRegistryEntry \<Rightarrow> ToolCall \<Rightarrow> AgentAction" where
  "action_for entry toolCall =
     (if te_invocation entry = ''autonomous''
      then Act_tool_call (te_id entry) (tc_id toolCall) (tc_arguments toolCall)
      else Act_confirmation_required (te_id entry) (tc_id toolCall) (tc_arguments toolCall)
             (te_name entry @ '': '' @ te_description entry))"

text \<open>The inner \<^verbatim>\<open>for (const toolCall of response.toolCalls)\<close>.\<close>

fun processToolCalls ::
  "AgentConfig \<Rightarrow> registry \<Rightarrow> host \<Rightarrow> ToolCall list \<Rightarrow> run_state \<Rightarrow> run_state" where
  "processToolCalls config getToolByCommand hst [] st = st"
| "processToolCalls config getToolByCommand hst (toolCall # rest) st =
     (case getToolByCommand (tc_name toolCall) of
        None \<Rightarrow>
          processToolCalls config getToolByCommand hst rest
            (push_message (unknown_tool_message config toolCall) st)
      | Some entry \<Rightarrow>
          (let st1 = yield (action_for entry toolCall) st
           in case hst (yielded st1) of
                Some toolResult \<Rightarrow>
                  processToolCalls config getToolByCommand hst rest
                    (push_message (host_result_message toolResult) st1)
              | None \<Rightarrow>
                  processToolCalls config getToolByCommand hst rest
                    (push_message (skipped_message toolCall) st1)))"

definition budget_error :: "AgentConfig \<Rightarrow> real \<Rightarrow> AgentAction" where
  "budget_error config tokensUsed =
     Act_error (''Token budget exhausted ('' @ String_number tokensUsed @ '' / ''
                @ String_number (maxTokenBudget config) @ '' tokens used).'')"

text \<open>
  \<^verbatim>\<open>err instanceof Error ? err.message : String(err)\<close> inside the template literal:
  the text, or \<open>None\<close> when the conversion throws.
\<close>

definition failure_message :: "thrown \<Rightarrow> string option" where
  "failure_message err = (case err of Error_object message \<Rightarrow> message | Other_value s \<Rightarrow> s)"

text \<open>
  The \<^verbatim>\<open>catch\<close> block: it yields the error action, unless building the message
  throws, in which case nothing is yielded and the exception leaves the generator.
\<close>

definition catch_request_failure :: "thrown \<Rightarrow> run_state \<Rightarrow> run_state" where
  "catch_request_failure err st =
     (case failure_message err of
        Some text_of_failure \<Rightarrow> yield (Act_error (''Model request failed: '' @ text_of_failure)) st
      | None \<Rightarrow> st\<lparr>uncaught := Some Conversion_exception\<rparr>)"

definition turn_limit_error :: "AgentConfig \<Rightarrow> AgentAction" where
  "turn_limit_error config =
     Act_error (''Agent loop reached maximum turns ('' @ String_number (maxTurns config)
                @ ''). Stopping to prevent runaway execution.'')"

definition make_request :: "AgentConfig \<Rightarrow> run_state \<Rightarrow> ModelRequestOptions" where
  "make_request config st =
     \<lparr>req_role = ''chat'', req_messages = messages st,
      req_tools = (if length (availableTools config) > 0 then Some (availableTools config)
                   else None)\<rparr>"

definition track_usage :: "ModelResponse \<Rightarrow> run_state \<Rightarrow> run_state" where
  "track_usage response st =
     (case resp_usage response of
        Some u \<Rightarrow> st\<lparr>totalInputTokens := totalInputTokens st + inputTokens u,
                     totalOutputTokens := totalOutputTokens st + outputTokens u\<rparr>
      | None \<Rightarrow> st)"

definition no_tool_calls :: "ModelResponse \<Rightarrow> bool" where
  "no_tool_calls response =
     (case resp_toolCalls response of None \<Rightarrow> True | Some cs \<Rightarrow> length cs = 0)"

definition assistant_message :: "ModelResponse \<Rightarrow> ChatMessage" where
  "assistant_message response =
     \<lparr>role = Assistant, content = resp_content response,
      toolCalls = resp_toolCalls response, toolCallId = None\<rparr>"

definition log_request :: "AgentConfig \<Rightarrow> run_state \<Rightarrow> run_state" where
  "log_request config st = st\<lparr>requests := requests st @ [make_request config st]\<rparr>"

text \<open>The \<^verbatim>\<open>while (turnsRemaining > 0)\<close> loop and the statement after it.\<close>

function agentLoop ::
  "AgentConfig \<Rightarrow> registry \<Rightarrow> provider \<Rightarrow> host \<Rightarrow> real \<Rightarrow> run_state \<Rightarrow> run_state" where
  "agentLoop config getToolByCommand prov hst turnsRemaining st =
     (if turnsRemaining > 0 then
        (if totalInputTokens st + totalOutputTokens st
              \<ge> maxTokenBudget config - MIN_TOKEN_BUDGET_THRESHOLD
         then yield (budget_error config (totalInputTokens st + totalOutputTokens st)) st
         else
           (case prov (requests (log_request config st)) of
              Inl err \<Rightarrow> catch_request_failure err (log_request config st)
            | Inr response \<Rightarrow>
                (if no_tool_calls response
                 then yield (Act_response (resp_content response)
                               (totalInputTokens (track_usage response st))
                               (totalOutputTokens (track_usage response st)))
                        (track_usage response (log_request config st))
                 else agentLoop config getToolByCommand prov hst (turnsRemaining - 1)
                        (processToolCalls config getToolByCommand hst
                           (the (resp_toolCalls response))
                           (push_message (assistant_message response)
                              (track_usage response (log_request config st)))))))
      else yield (turn_limit_error config) st)"
  by pat_completeness auto
termination
proof (relation "measure (\<lambda>(config, getToolByCommand, prov, hst, turnsRemaining, st).
                            nat \<lceil>turnsRemaining\<rceil>)")
  show "wf (measure (\<lambda>(config, getToolByCommand, prov, hst, turnsRemaining, st).
                            nat \<lceil>turnsRemaining :: real\<rceil>))"
    by simp
next
  fix config :: AgentConfig and getToolByCommand :: registry and prov :: provider
    and hst :: host and turnsRemaining :: real and st :: run_state and response :: ModelResponse
  assume "0 < turnsRemaining"
  then have "\<lceil>turnsRemaining - 1\<rceil> < \<lceil>turnsRemaining\<rceil>" and "0 < \<lceil>turnsRemaining\<rceil>"
    by simp_all
  then show "((config, getToolByCommand, prov, hst, turnsRemaining - 1,
       processToolCalls config getToolByCommand hst (the (resp_toolCalls response))
         (push_message (assistant_message response)
            (track_usage response (log_request config st)))),
      (config, getToolByCommand, prov, hst, turnsRemaining, st))
     \<in> measure (\<lambda>(config, getToolByCommand, prov, hst, turnsRemaining, st).
                   nat \<lceil>turnsRemaining\<rceil>)"
    by simp
qed

declare agentLoop.simps [simp del]

definition initial_messages :: "AgentConfig \<Rightarrow> ChatMessage list \<Rightarrow> string \<Rightarrow> ChatMessage list" where
  "initial_messages config history userMessage =
     [\<lparr>role = System, content = buildSystemPrompt config, toolCalls = None, toolCallId = None\<rparr>]
     @ history
     @ [\<lparr>role = User, content = userMessage, toolCalls = None, toolCallId = None\<rparr>]"

definition runAgentLoop ::
  "registry \<Rightarrow> provider \<Rightarrow> host \<Rightarrow> AgentConfig \<Rightarrow> ChatMessage list \<Rightarrow> string \<Rightarrow> run_state" where
  "runAgentLoop getToolByCommand prov hst config history userMessage =
     agentLoop config getToolByCommand prov hst (maxTurns config)
       \<lparr>messages = initial_messages config history userMessage,
        totalInputTokens = 0, totalOutputTokens = 0, requests = [], yielded = [],
        uncaught = None\<rparr>"

section \<open>String operations of the parsers\<close>

text \<open>
  Characters are 8-bit code units. The white space of \<^verbatim>\<open>trim\<close>, \<^verbatim>\<open>parseInt\<close> and
  the regular expression class \<^verbatim>\<open>\s\<close> is, in that range: tab, line feed, vertical tab,
  form feed, carriage return, space and no-break space.
\<close>

definition is_space :: "char \<Rightarrow> bool" where
  "is_space c \<longleftrightarrow> c \<in> set [CHR 9, CHR 10, CHR 11, CHR 12, CHR 13, CHR '' '', CHR 160]"


text \<open>The class \<^verbatim>\<open>\w\<close>.\<close>

definition is_word_char :: "char \<Rightarrow> bool" where
  "is_word_char c \<longleftrightarrow>
     c \<in> set ''abcdefghijklmnopqrstuvwxyzABCDEFGHIJKLMNOPQRSTUVWXYZ0123456789_''"


definition trim :: "string \<Rightarrow> string" where
  "trim s = rev (dropWhile is_space (rev (dropWhile is_space s)))"

text \<open>\<^verbatim>\<open>s.split(c)\<close> for a one-character separator; the result is never empty.\<close>

fun split :: "char \<Rightarrow> string \<Rightarrow> string list" where
  "split c [] = [[]]"
| "split c (x # xs) =
     (if x = c then [] # split c xs
      else (case split c xs of [] \<Rightarrow> [[x]] | y # ys \<Rightarrow> (x # y) # ys))"

definition startsWith :: "string \<Rightarrow> string \<Rightarrow> bool" where
  "startsWith s p \<longleftrightarrow> take (length p) s = p"




text \<open>
  \<^verbatim>\<open>toUpperCase\<close> on the letters a to z. The parsers only compare its result with
  \<^verbatim>\<open>REMOVE\<close> and \<^verbatim>\<open>REWRITE\<close>, and no other 8-bit character is mapped to a letter of
  these words.
\<close>

definition upper_char :: "char \<Rightarrow> char" where
  "upper_char c =
     (case List.find (\<lambda>p. fst p = c)
             (zip ''abcdefghijklmnopqrstuvwxyz'' ''ABCDEFGHIJKLMNOPQRSTUVWXYZ'') of
        Some p \<Rightarrow> snd p | None \<Rightarrow> c)"

definition toUpperCase :: "string \<Rightarrow> string" where
  "toUpperCase s = map upper_char s"

section \<open>Findings (types/analysis.ts, types/common.ts)\<close>

datatype Severity = Sev_error | Sev_warning | Sev_info | Sev_hint

record CodeLocation =
  filePath :: string
  startLine :: int
  endLine :: int
  startColumn :: "int option"
  endColumn :: "int option"

record SuggestedFix =
  fix_description :: string
  fix_replacement :: string
  fix_location :: CodeLocation

text \<open>
  \<open>FindingBody\<close> is \<^verbatim>\<open>Omit<Finding, 'id' | 'toolId'>\<close>, the argument of
  \<^verbatim>\<open>BaseTool.createFinding\<close>; a \<open>Finding\<close> extends it by the two fields that
  \<^verbatim>\<open>createFinding\<close> fills in (tools/base-tool.ts is not part of the sources; the
  tools below are modelled up to the bodies they pass to it, in order).
\<close>

record FindingBody =
  title :: string
  description :: string
  location :: CodeLocation
  severity :: Severity
  suggestedFix :: "SuggestedFix option"
  metadata :: "(string \<times> string) list option"

record Finding = FindingBody +
  finding_id :: string
  toolId :: ToolId

definition line_location :: "string \<Rightarrow> int \<Rightarrow> int \<Rightarrow> CodeLocation" where
  "line_location path l1 l2 =
     \<lparr>filePath = path, startLine = l1, endLine = l2, startColumn = None, endColumn = None\<rparr>"

section \<open>Dead-code tool: the model review (DeadCodeTool.modelReview)\<close>

definition finding_key :: "'a FindingBody_scheme \<Rightarrow> string" where
  "finding_key finding =
     filePath (location finding) @ '':'' @ String (startLine (location finding))"

text \<open>The loop over the lines of the response that fills the set \<open>dismissals\<close>.\<close>

fun collect_dismissals :: "string list \<Rightarrow> string set \<Rightarrow> string set" where
  "collect_dismissals [] dismissals = dismissals"
| "collect_dismissals (line # lines) dismissals =
     (if startsWith line ''DISMISS|''
      then (let parts = split (CHR ''|'') line
            in if length parts \<ge> 2
               then collect_dismissals lines (insert (trim (parts ! 1)) dismissals)
               else collect_dismissals lines dismissals)
      else collect_dismissals lines dismissals)"

text \<open>The loop over \<open>staticFindings\<close> that mutates the dismissed findings in place.\<close>

fun downgrade :: "string set \<Rightarrow> 'a FindingBody_scheme list \<Rightarrow> 'a FindingBody_scheme list" where
  "downgrade dismissals [] = []"
| "downgrade dismissals (finding # rest) =
     (if finding_key finding \<in> dismissals
      then finding\<lparr>severity := Sev_hint,
                   description := description finding
                     @ '' (Model suggests this may be a false positive.)''\<rparr>
      else finding)
     # downgrade dismissals rest"

text \<open>
  \<open>modelReview\<close> gets the outcome of its one request: what \<^verbatim>\<open>sendRequest\<close> threw or
  returned (the request is built from the findings without changing them). It gives
  back the array \<open>staticFindings\<close> as it left it, and the list it returns, always empty.
\<close>

definition modelReview ::
  "thrown + ModelResponse \<Rightarrow> 'a FindingBody_scheme list
     \<Rightarrow> 'a FindingBody_scheme list \<times> 'a FindingBody_scheme list" where
  "modelReview outcome staticFindings =
     (case outcome of
        Inl err \<Rightarrow> (staticFindings, [])
      | Inr response \<Rightarrow>
          (downgrade (collect_dismissals (split (CHR 10) (resp_content response)) {}) staticFindings,
           []))"

text \<open>
  Phase 2 of \<open>DeadCodeTool.run\<close>; \<open>modelProvider\<close> is \<open>None\<close> when no provider is
  configured, and otherwise the outcome of the review's request.
\<close>

definition review_phase ::
  "(thrown + ModelResponse) option \<Rightarrow> 'a FindingBody_scheme list \<Rightarrow> 'a FindingBody_scheme list" where
  "review_phase modelProvider findings =
     (case modelProvider of
        Some outcome \<Rightarrow>
          (if length findings > 0
           then (case modelReview outcome findings of
                   (findings', modelFindings) \<Rightarrow> findings' @ modelFindings)
           else findings)
      | None \<Rightarrow> findings)"

text \<open>A finding is named in a DISMISS line of the response.\<close>

definition named_in_dismiss_line :: "string \<Rightarrow> 'a FindingBody_scheme \<Rightarrow> bool" where
  "named_in_dismiss_line response_content finding \<longleftrightarrow>
     (\<exists>line \<in> set (split (CHR 10) response_content).
        startsWith line ''DISMISS|'' \<and> trim (split (CHR ''|'') line ! 1) = finding_key finding)"

section \<open>Lint tool: parsing the model's answer (LintTool.runModelAnalysis)\<close>





section \<open>Comments tool: parsing the model's answer (parseModelResponse)\<close>






section \<open>Conflict markers (git/conflicts.ts)\<close>

definition MARKER_OURS :: string where
  "MARKER_OURS = ''<<<<<<<''"

definition MARKER_SEPARATOR :: string where
  "MARKER_SEPARATOR = ''=======''"

definition MARKER_THEIRS :: string where
  "MARKER_THEIRS = ''>>>>>>>''"

record ConflictHunk =
  hunk_startLine :: nat
  hunk_endLine :: nat
  ours :: string
  theirs :: string
  oursLabel :: string
  theirsLabel :: string

text \<open>The local variables of \<open>parseOneHunk\<close> that its loop updates.\<close>

record hunk_scan =
  separatorFound :: bool
  oursLines :: "string list"
  theirsLines :: "string list"
  scan_endLine :: nat
  scan_theirsLabel :: string

text \<open>
  The \<^verbatim>\<open>for\<close> loop of \<open>parseOneHunk\<close> over the lines from index \<open>i\<close> on; the
  second equation's second branch is the \<^verbatim>\<open>break\<close>.
\<close>

fun scan_hunk :: "string list \<Rightarrow> nat \<Rightarrow> hunk_scan \<Rightarrow> hunk_scan" where
  "scan_hunk [] i s = s"
| "scan_hunk (line # rest) i s =
     (if \<not> separatorFound s \<and> startsWith line MARKER_SEPARATOR
      then scan_hunk rest (i + 1) (s\<lparr>separatorFound := True\<rparr>)
      else if separatorFound s \<and> startsWith line MARKER_THEIRS
      then s\<lparr>scan_theirsLabel := trim (drop (length MARKER_THEIRS) line), scan_endLine := i + 1\<rparr>
      else if separatorFound s
      then scan_hunk rest (i + 1) (s\<lparr>theirsLines := theirsLines s @ [line]\<rparr>)
      else scan_hunk rest (i + 1) (s\<lparr>oursLines := oursLines s @ [line]\<rparr>))"

definition parseOneHunk :: "string list \<Rightarrow> nat \<Rightarrow> ConflictHunk option" where
  "parseOneHunk lines startIndex =
     (let label = trim (drop (length MARKER_OURS) (lines ! startIndex));
          first = startIndex + 1;
          s = scan_hunk (drop (startIndex + 1) lines) (startIndex + 1)
                \<lparr>separatorFound = False, oursLines = [], theirsLines = [],
                 scan_endLine = first, scan_theirsLabel = []\<rparr>
      in if \<not> separatorFound s then None
         else Some \<lparr>hunk_startLine = first, hunk_endLine = scan_endLine s,
                    ours = join [CHR 10] (oursLines s), theirs = join [CHR 10] (theirsLines s),
                    oursLabel = label, theirsLabel = scan_theirsLabel s\<rparr>)"

text \<open>
  The \<^verbatim>\<open>while (i < lines.length)\<close> loop of \<open>parseConflictMarkers\<close>. It ends because
  a hunk found at index \<open>i\<close> ends on a line after \<open>i\<close>.
\<close>

function parse_markers_from :: "string list \<Rightarrow> nat \<Rightarrow> ConflictHunk list \<Rightarrow> ConflictHunk list" where
  "parse_markers_from lines i hunks =
     (if i < length lines then
        (if startsWith (lines ! i) MARKER_OURS then
           (case parseOneHunk lines i of
              Some hunk \<Rightarrow> parse_markers_from lines (hunk_endLine hunk) (hunks @ [hunk])
            | None \<Rightarrow> parse_markers_from lines (i + 1) hunks)
         else parse_markers_from lines (i + 1) hunks)
      else hunks)"
  by pat_completeness auto
termination
proof (relation "measure (\<lambda>(lines, i, hunks). length lines - i)")
  show "wf (measure (\<lambda>(lines, i, hunks). length lines - i))"
    by simp
next
  fix lines :: "string list" and i :: nat and hunks :: "ConflictHunk list" and hunk :: ConflictHunk
  assume lt: "i < length lines" and some: "parseOneHunk lines i = Some hunk"
  have scan: "k < scan_endLine s \<Longrightarrow> k < j \<Longrightarrow> k < scan_endLine (scan_hunk rest j s)"
    for k j rest s
    by (induction rest j s rule: scan_hunk.induct) auto
  have "i < hunk_endLine hunk"
    using some scan[of i _ "i + 1"]
    by (auto simp: parseOneHunk_def Let_def split: if_splits)
  with lt show "((lines, hunk_endLine hunk, hunks @ [hunk]), (lines, i, hunks))
      \<in> measure (\<lambda>(lines, i, hunks). length lines - i)"
    by simp
qed auto

declare parse_markers_from.simps [simp del]

definition parseConflictMarkers :: "string \<Rightarrow> ConflictHunk list" where
  "parseConflictMarkers file_content = parse_markers_from (split (CHR 10) file_content) 0 []"

section \<open>Dead-code tool: the static pass (DeadCodeTool.run, extractExports)\<close>

datatype SupportedLanguage = Typescript | Javascript | Python

datatype ExportKind =
  Kind_function | Kind_class | Kind_variable | Kind_type | Kind_interface | Kind_enum | Kind_default

record ExportInfo =
  ex_name :: string
  ex_line :: int
  ex_kind :: ExportKind

definition kind_text :: "ExportKind \<Rightarrow> string" where
  "kind_text k =
     (case k of Kind_function \<Rightarrow> ''function'' | Kind_class \<Rightarrow> ''class''
      | Kind_variable \<Rightarrow> ''variable'' | Kind_type \<Rightarrow> ''type''
      | Kind_interface \<Rightarrow> ''interface'' | Kind_enum \<Rightarrow> ''enum'' | Kind_default \<Rightarrow> ''default'')"

subsection \<open>The regular expressions of the extractors\<close>

text \<open>
  A pattern is a function from the input at a position to what it leaves (or captures)
  when it matches there. In each expression a greedy run is followed by a character
  outside its class, so matching the longest run is the only way to match.
\<close>

text \<open>A literal.\<close>

definition lit :: "string \<Rightarrow> string \<Rightarrow> string option" where
  "lit p s = (if startsWith s p then Some (drop (length p) s) else None)"

text \<open>\<^verbatim>\<open>\s+\<close>\<close>

definition spaces1 :: "string \<Rightarrow> string option" where
  "spaces1 s = (if s \<noteq> [] \<and> is_space (hd s) then Some (dropWhile is_space s) else None)"

text \<open>\<^verbatim>\<open>(\w+)\<close> at the end of an expression: the captured name.\<close>

definition word1 :: "string \<Rightarrow> string option" where
  "word1 s = (if takeWhile is_word_char s = [] then None else Some (takeWhile is_word_char s))"

text \<open>\<^verbatim>\<open>kw\s+(\w+)\<close>\<close>

definition keyword_name :: "string \<Rightarrow> string \<Rightarrow> string option" where
  "keyword_name kw s = Option.bind (lit kw s) (\<lambda>r. Option.bind (spaces1 r) word1)"

text \<open>\<^verbatim>\<open>(?:modifier\s+)?\<close> before the pattern \<open>k\<close>: with the modifier first, then without.\<close>

definition optional :: "string \<Rightarrow> (string \<Rightarrow> 'a option) \<Rightarrow> string \<Rightarrow> 'a option" where
  "optional modifier k s =
     (case Option.bind (lit modifier s) (\<lambda>r. Option.bind (spaces1 r) k) of
        Some x \<Rightarrow> Some x
      | None \<Rightarrow> k s)"

text \<open>An alternation: the first alternative that matches.\<close>

fun first_of :: "(string \<Rightarrow> 'a option) list \<Rightarrow> string \<Rightarrow> 'a option" where
  "first_of [] s = None"
| "first_of (k # ks) s = (case k s of Some x \<Rightarrow> Some x | None \<Rightarrow> first_of ks s)"

text \<open>\<^verbatim>\<open>export\s+\<close> before the pattern \<open>k\<close>.\<close>

definition after_export :: "(string \<Rightarrow> 'a option) \<Rightarrow> string \<Rightarrow> 'a option" where
  "after_export k s = Option.bind (lit ''export'' s) (\<lambda>r. Option.bind (spaces1 r) k)"

text \<open>\<^verbatim>\<open>default\b\<close>\<close>

definition default_word :: "string \<Rightarrow> unit option" where
  "default_word s =
     (case lit ''default'' s of
        Some r \<Rightarrow> (if r = [] \<or> \<not> is_word_char (hd r) then Some () else None)
      | None \<Rightarrow> None)"

text \<open>\<^verbatim>\<open>line.match(re)\<close> for an expression without anchor: the leftmost match.\<close>

fun search :: "(string \<Rightarrow> 'a option) \<Rightarrow> string \<Rightarrow> 'a option" where
  "search k [] = k []"
| "search k (c # cs) = (case k (c # cs) of Some x \<Rightarrow> Some x | None \<Rightarrow> search k cs)"

subsection \<open>extractExports\<close>

text \<open>One iteration of the loop over the lines: the export pushed for the line, if any.\<close>

definition export_of_line :: "string \<Rightarrow> int \<Rightarrow> ExportInfo option" where
  "export_of_line line lineNum =
     (case search (after_export (optional ''async'' (keyword_name ''function''))) line of
        Some n \<Rightarrow> Some \<lparr>ex_name = n, ex_line = lineNum, ex_kind = Kind_function\<rparr>
      | None \<Rightarrow>
     (case search (after_export (optional ''abstract'' (keyword_name ''class''))) line of
        Some n \<Rightarrow> Some \<lparr>ex_name = n, ex_line = lineNum, ex_kind = Kind_class\<rparr>
      | None \<Rightarrow>
     (case search (after_export (first_of [keyword_name ''const'', keyword_name ''let'',
                                           keyword_name ''var''])) line of
        Some n \<Rightarrow> Some \<lparr>ex_name = n, ex_line = lineNum, ex_kind = Kind_variable\<rparr>
      | None \<Rightarrow>
     (case search (after_export (keyword_name ''type'')) line of
        Some n \<Rightarrow> Some \<lparr>ex_name = n, ex_line = lineNum, ex_kind = Kind_type\<rparr>
      | None \<Rightarrow>
     (case search (after_export (keyword_name ''interface'')) line of
        Some n \<Rightarrow> Some \<lparr>ex_name = n, ex_line = lineNum, ex_kind = Kind_interface\<rparr>
      | None \<Rightarrow>
     (case search (after_export (keyword_name ''enum'')) line of
        Some n \<Rightarrow> Some \<lparr>ex_name = n, ex_line = lineNum, ex_kind = Kind_enum\<rparr>
      | None \<Rightarrow>
     (case search (after_export default_word) line of
        Some u \<Rightarrow> Some \<lparr>ex_name = ''default'', ex_line = lineNum, ex_kind = Kind_default\<rparr>
      | None \<Rightarrow> None)))))))"

fun extract_lines ::
  "(string \<Rightarrow> int \<Rightarrow> ExportInfo option) \<Rightarrow> string list \<Rightarrow> int \<Rightarrow> ExportInfo list \<Rightarrow> ExportInfo list" where
  "extract_lines of_line [] lineNum exports = exports"
| "extract_lines of_line (line # lines) lineNum exports =
     (case of_line line lineNum of
        Some e \<Rightarrow> extract_lines of_line lines (lineNum + 1) (exports @ [e])
      | None \<Rightarrow> extract_lines of_line lines (lineNum + 1) exports)"

definition extractExports :: "string \<Rightarrow> ExportInfo list" where
  "extractExports file_content = extract_lines export_of_line (split (CHR 10) file_content) 1 []"

subsection \<open>extractPythonExports\<close>

text \<open>\<^verbatim>\<open>^def\s+(\w+)\s*\(\<close>\<close>

definition python_def :: "string \<Rightarrow> string option" where
  "python_def line =
     Option.bind (lit ''def'' line) (\<lambda>r. Option.bind (spaces1 r) (\<lambda>r'.
       Option.bind (word1 r') (\<lambda>n.
         if startsWith (dropWhile is_space (drop (length n) r')) ''('' then Some n else None)))"

text \<open>\<^verbatim>\<open>^(\w+)\s*=\<close>\<close>

definition python_assignment :: "string \<Rightarrow> string option" where
  "python_assignment line =
     Option.bind (word1 line) (\<lambda>n.
       if startsWith (dropWhile is_space (drop (length n) line)) ''='' then Some n else None)"

definition python_export_of_line :: "string \<Rightarrow> int \<Rightarrow> ExportInfo option" where
  "python_export_of_line line lineNum =
     (let funcMatch = python_def line;
          classMatch = keyword_name ''class'' line;
          varMatch = python_assignment line
      in if funcMatch \<noteq> None \<and> \<not> startsWith (the funcMatch) ''_''
         then Some \<lparr>ex_name = the funcMatch, ex_line = lineNum, ex_kind = Kind_function\<rparr>
         else if classMatch \<noteq> None \<and> \<not> startsWith (the classMatch) ''_''
         then Some \<lparr>ex_name = the classMatch, ex_line = lineNum, ex_kind = Kind_class\<rparr>
         else if varMatch \<noteq> None \<and> \<not> startsWith (the varMatch) ''_''
                 \<and> the varMatch = toUpperCase (the varMatch)
         then Some \<lparr>ex_name = the varMatch, ex_line = lineNum, ex_kind = Kind_variable\<rparr>
         else None)"

definition extractPythonExports :: "string \<Rightarrow> ExportInfo list" where
  "extractPythonExports file_content =
     extract_lines python_export_of_line (split (CHR 10) file_content) 1 []"

subsection \<open>Counting the occurrences of a name\<close>

text \<open>
  \<^verbatim>\<open>allContent.match(new RegExp(`\\b${escapeRegex(name)}\\b`, 'g'))\<close>: the escaped name
  matches literally. \<open>prev\<close> is the character before the position, if any.
\<close>

definition is_word :: "char option \<Rightarrow> bool" where
  "is_word c = (case c of None \<Rightarrow> False | Some x \<Rightarrow> is_word_char x)"

definition first_char :: "string \<Rightarrow> char option" where
  "first_char s = (case s of [] \<Rightarrow> None | c # cs \<Rightarrow> Some c)"

text \<open>\<^verbatim>\<open>\b\<close> between two characters.\<close>

definition word_boundary :: "char option \<Rightarrow> char option \<Rightarrow> bool" where
  "word_boundary left right \<longleftrightarrow> is_word left \<noteq> is_word right"

definition name_matches_here :: "string \<Rightarrow> char option \<Rightarrow> string \<Rightarrow> bool" where
  "name_matches_here name prev s \<longleftrightarrow>
     startsWith s name
     \<and> word_boundary prev (first_char s)
     \<and> word_boundary (if name = [] then prev else Some (last name))
          (first_char (drop (length name) s))"

text \<open>
  The number of matches of the global expression: after a match the search goes on
  behind it (one character further after an empty match).
\<close>

function count_matches :: "string \<Rightarrow> char option \<Rightarrow> string \<Rightarrow> nat" where
  "count_matches name prev s =
     (if name_matches_here name prev s
      then (if name = []
            then (case s of [] \<Rightarrow> 1 | c # cs \<Rightarrow> 1 + count_matches name (Some c) cs)
            else 1 + count_matches name (Some (last name)) (drop (length name) s))
      else (case s of [] \<Rightarrow> 0 | c # cs \<Rightarrow> count_matches name (Some c) cs))"
  by pat_completeness auto
termination
proof (relation "measure (\<lambda>(name, prev, s). length s)")
  show "wf (measure (\<lambda>(name, prev, s). length s))"
    by simp
next
  fix name :: string and prev :: "char option" and s :: string
  assume "name_matches_here name prev s" and "name \<noteq> []"
  then have "s \<noteq> []"
    by (auto simp: name_matches_here_def startsWith_def)
  with \<open>name \<noteq> []\<close>
  show "((name, Some (last name), drop (length name) s), (name, prev, s))
      \<in> measure (\<lambda>(name, prev, s). length s)"
    by simp
qed auto

declare count_matches.simps [simp del]

text \<open>
  The occurrences of a name as a whole word, as the specification counts them: every
  position where the name stands with no word character before it and none after it.
\<close>

definition whole_word_here :: "string \<Rightarrow> char option \<Rightarrow> string \<Rightarrow> bool" where
  "whole_word_here name prev s \<longleftrightarrow>
     startsWith s name \<and> \<not> is_word prev \<and> \<not> is_word (first_char (drop (length name) s))"

fun whole_word_occurrences_from :: "string \<Rightarrow> char option \<Rightarrow> string \<Rightarrow> nat" where
  "whole_word_occurrences_from name prev [] = (if whole_word_here name prev [] then 1 else 0)"
| "whole_word_occurrences_from name prev (c # cs) =
     (if whole_word_here name prev (c # cs) then 1 else 0)
     + whole_word_occurrences_from name (Some c) cs"

definition whole_word_occurrences :: "string \<Rightarrow> string \<Rightarrow> nat" where
  "whole_word_occurrences name body = whole_word_occurrences_from name None body"

subsection \<open>The scan and the usage check\<close>

text \<open>
  A file of the scan: its path relative to the repository root, what \<^verbatim>\<open>readFile\<close>
  gives (\<open>None\<close> when it throws) and the language of its extension, if any.
\<close>

record source_file =
  sf_path :: string
  sf_read :: "string option"
  sf_language :: "SupportedLanguage option"

text \<open>\<^verbatim>\<open>Map.prototype.set\<close> on a map kept in insertion order.\<close>

fun map_set :: "'k \<Rightarrow> 'v \<Rightarrow> ('k \<times> 'v) list \<Rightarrow> ('k \<times> 'v) list" where
  "map_set k v [] = [(k, v)]"
| "map_set k v (p # ps) = (if fst p = k then (k, v) # ps else p # map_set k v ps)"

definition MAX_FILES :: nat where
  "MAX_FILES = 500"

text \<open>The loop that reads the files and fills \<open>fileContents\<close> and \<open>allExports\<close>.\<close>

fun scan_files ::
  "source_file list \<Rightarrow> (string \<times> string) list \<times> (string \<times> ExportInfo list) list
     \<Rightarrow> (string \<times> string) list \<times> (string \<times> ExportInfo list) list" where
  "scan_files [] maps = maps"
| "scan_files (file # files) (fileContents, allExports) =
     (case sf_read file of
        None \<Rightarrow> scan_files files (fileContents, allExports)
      | Some file_content \<Rightarrow>
          (let fileContents' = map_set (sf_path file) file_content fileContents;
               exports = (case sf_language file of
                            Some Typescript \<Rightarrow> extractExports file_content
                          | Some Javascript \<Rightarrow> extractExports file_content
                          | Some Python \<Rightarrow> extractPythonExports file_content
                          | None \<Rightarrow> [])
           in if length exports > 0
              then scan_files files (fileContents', map_set (sf_path file) exports allExports)
              else scan_files files (fileContents', allExports)))"

definition unused_export_finding :: "string \<Rightarrow> ExportInfo \<Rightarrow> FindingBody" where
  "unused_export_finding path symbol =
     \<lparr>title = ''Unused export: '' @ ex_name symbol,
      description = ''Exported '' @ kind_text (ex_kind symbol) @ '' \"'' @ ex_name symbol
                    @ ''\" appears to be unused across the scanned files.'',
      location = line_location path (ex_line symbol) (ex_line symbol),
      severity = Sev_warning,
      suggestedFix = Some \<lparr>fix_description = ''Remove unused '' @ kind_text (ex_kind symbol)
                                                @ '' or its export'',
                             fix_replacement = [],
                             fix_location = line_location path (ex_line symbol) (ex_line symbol)\<rparr>,
      metadata = None\<rparr>"

text \<open>The nested iteration over \<open>allExports\<close>.\<close>

fun check_exports :: "string \<Rightarrow> string \<Rightarrow> ExportInfo list \<Rightarrow> FindingBody list \<Rightarrow> FindingBody list" where
  "check_exports allContent path [] findings = findings"
| "check_exports allContent path (symbol # exports) findings =
     (if ex_kind symbol = Kind_default then check_exports allContent path exports findings
      else if count_matches (ex_name symbol) None allContent \<le> 1
      then check_exports allContent path exports (findings @ [unused_export_finding path symbol])
      else check_exports allContent path exports findings)"

fun check_files ::
  "string \<Rightarrow> (string \<times> ExportInfo list) list \<Rightarrow> FindingBody list \<Rightarrow> FindingBody list" where
  "check_files allContent [] findings = findings"
| "check_files allContent ((path, exports) # others) findings =
     check_files allContent others (check_exports allContent path exports findings)"

text \<open>Phase 1 of \<open>DeadCodeTool.run\<close>, from the collected files to the static findings.\<close>

definition static_pass :: "string \<Rightarrow> source_file list \<Rightarrow> FindingBody list" where
  "static_pass repoRoot files =
     (if length files = 0
      then [\<lparr>title = ''No source files found'',
             description = ''No files matching enabled languages were found in the scan scope.'',
             location = line_location repoRoot 0 0, severity = Sev_info,
             suggestedFix = None, metadata = None\<rparr>]
      else (case scan_files (take MAX_FILES files) ([], []) of
              (fileContents, allExports) \<Rightarrow>
                check_files (join [CHR 10] (map snd fileContents)) allExports []))"

text \<open>What the scan extracted, and the text the names are counted in.\<close>

definition extracted_symbols :: "source_file list \<Rightarrow> (string \<times> ExportInfo) list" where
  "extracted_symbols files =
     concat (map (\<lambda>(path, exports). map (Pair path) exports)
               (snd (scan_files (take MAX_FILES files) ([], []))))"

definition scanned_content :: "source_file list \<Rightarrow> string" where
  "scanned_content files =
     join [CHR 10] (map snd (fst (scan_files (take MAX_FILES files) ([], []))))"

text \<open>A name as \<^verbatim>\<open>(\w+)\<close> captures it: word characters, at least one.\<close>

definition is_word_name :: "string \<Rightarrow> bool" where
  "is_word_name n \<longleftrightarrow> n \<noteq> [] \<and> list_all is_word_char n"

text \<open>Every export of the map is a default export or has such a name.\<close>

definition named_exports :: "(string \<times> ExportInfo list) list \<Rightarrow> bool" where
  "named_exports m \<longleftrightarrow>
     (\<forall>(p, es) \<in> set m. \<forall>e \<in> set es. ex_kind e = Kind_default \<or> is_word_name (ex_name e))"

text \<open>The two kinds of action that suspend the generator; the other two end the run.\<close>

definition is_tool_action :: "AgentAction \<Rightarrow> bool" where
  "is_tool_action a =
     (case a of Act_tool_call _ _ _ \<Rightarrow> True | Act_confirmation_required _ _ _ _ \<Rightarrow> True
      | _ \<Rightarrow> False)"


text \<open>
  The tokens an answer reports: input plus output, and zero when the answer carries no
  usage or the request failed.
\<close>

definition reported_by :: "thrown + ModelResponse \<Rightarrow> real" where
  "reported_by answer =
     (case answer of
        Inl err \<Rightarrow> 0
      | Inr response \<Rightarrow>
          (case resp_usage response of None \<Rightarrow> 0 | Some u \<Rightarrow> inputTokens u + outputTokens u))"

text \<open>
  The usage reported in the answers to the requests of a log; the provider answers the
  request number \<open>k + 1\<close> from the first \<open>k + 1\<close> requests.
\<close>

definition reported_usage :: "provider \<Rightarrow> ModelRequestOptions list \<Rightarrow> real" where
  "reported_usage prov reqs =
     sum_list (map (\<lambda>k. reported_by (prov (take (Suc k) reqs))) [0..<length reqs])"

text \<open>
  What a batch of tool calls is expected to produce, call by call. The host is asked
  for the calls of registered tools only: with a \<open>tool_call\<close> when the registry marks
  the tool autonomous, and with a \<open>confirmation_required\<close> carrying name and
  description otherwise.
\<close>

definition expected_action :: "ToolRegistryEntry \<Rightarrow> ToolCall \<Rightarrow> AgentAction" where
  "expected_action entry c =
     (if te_invocation entry = ''autonomous''
      then Act_tool_call (te_id entry) (tc_id c) (tc_arguments c)
      else Act_confirmation_required (te_id entry) (tc_id c) (tc_arguments c)
             (te_name entry @ '': '' @ te_description entry))"

fun expected_actions :: "registry \<Rightarrow> ToolCall list \<Rightarrow> AgentAction list" where
  "expected_actions reg [] = []"
| "expected_actions reg (c # cs) =
     (case reg (tc_name c) of
        None \<Rightarrow> expected_actions reg cs
      | Some entry \<Rightarrow> expected_action entry c # expected_actions reg cs)"

text \<open>
  The \<open>tool_result\<close> expected for the call \<open>c\<close> when the actions \<open>seen\<close> were
  yielded before it: the report of an unknown tool; or, for a registered tool, the
  host's result as the host gave it, and the synthetic skipped-or-denied message when
  the host resumed with nothing.
\<close>

definition expected_result ::
  "AgentConfig \<Rightarrow> registry \<Rightarrow> host \<Rightarrow> AgentAction list \<Rightarrow> ToolCall \<Rightarrow> ChatMessage" where
  "expected_result config reg hst seen c =
     (case reg (tc_name c) of
        None \<Rightarrow>
          \<lparr>role = Tool_result,
           content = ''Unknown tool: \"'' @ tc_name c @ ''\". Available tools: ''
                     @ join '', '' (map td_name (availableTools config)),
           toolCalls = None, toolCallId = Some (tc_id c)\<rparr>
      | Some entry \<Rightarrow>
          (case hst (seen @ [expected_action entry c]) of
             None \<Rightarrow>
               \<lparr>role = Tool_result,
                content = ''Tool execution was skipped or denied by the user.'',
                toolCalls = None, toolCallId = Some (tc_id c)\<rparr>
           | Some toolResult \<Rightarrow>
               \<lparr>role = Tool_result, content = tr_content toolResult,
                toolCalls = None, toolCallId = Some (tr_toolCallId toolResult)\<rparr>))"

text \<open>
  The results expected for the calls of a batch, one per call and in the order of the
  calls; the host has seen the actions \<open>seen\<close> and those of the earlier calls of the
  batch.
\<close>

definition expected_results ::
  "AgentConfig \<Rightarrow> registry \<Rightarrow> host \<Rightarrow> AgentAction list \<Rightarrow> ToolCall list \<Rightarrow> ChatMessage list" where
  "expected_results config reg hst seen calls =
     map (\<lambda>i. expected_result config reg hst (seen @ expected_actions reg (take i calls)) (calls ! i))
       [0..<length calls]"

text \<open>
  The invariant of the message sequence: every \<open>tool_result\<close> message carries the id
  of a tool call of an assistant message before it. \<open>seen\<close> holds the ids met so far.
\<close>

fun correlated_from :: "string list \<Rightarrow> ChatMessage list \<Rightarrow> bool" where
  "correlated_from seen [] = True"
| "correlated_from seen (m # ms) =
     (case role m of
        Tool_result \<Rightarrow>
          (case toolCallId m of Some i \<Rightarrow> i \<in> set seen | None \<Rightarrow> False)
          \<and> correlated_from seen ms
      | Assistant \<Rightarrow>
          correlated_from (seen @ map tc_id (case toolCalls m of None \<Rightarrow> [] | Some cs \<Rightarrow> cs)) ms
      | _ \<Rightarrow> correlated_from seen ms)"

text \<open>The id of the call an action is about, and a host that answers with that id.\<close>

definition action_callId :: "AgentAction \<Rightarrow> string option" where
  "action_callId a =
     (case a of Act_tool_call t callId ar \<Rightarrow> Some callId
      | Act_confirmation_required t callId ar d \<Rightarrow> Some callId
      | _ \<Rightarrow> None)"

definition echoes_call_id :: "host \<Rightarrow> bool" where
  "echoes_call_id hst \<longleftrightarrow>
     (\<forall>ys a r. hst (ys @ [a]) = Some r \<longrightarrow> action_callId a = Some (tr_toolCallId r))"

text \<open>The ids of the tool calls that the assistant messages of a sequence carry.\<close>

definition call_ids :: "ChatMessage list \<Rightarrow> string list" where
  "call_ids ms =
     concat (map (\<lambda>m. if role m = Assistant
                        then map tc_id (case toolCalls m of None \<Rightarrow> [] | Some cs \<Rightarrow> cs)
                        else []) ms)"

text \<open>The tool section of the system prompt, as one string.\<close>

definition tool_descriptions :: "AgentConfig \<Rightarrow> string" where
  "tool_descriptions config =
     (if availableTools config = [] then []
      else ''Available tools:'' @ [CHR 10]
           @ concat (map (\<lambda>tool. tool_line tool @ [CHR 10]) (availableTools config))
           @ [CHR 10])"

subsection \<open>Example collaborators\<close>

definition example_registry :: registry where
  "example_registry name =
     (if name = ''dead-code''
      then Some \<lparr>te_id = Dead_code, te_name = ''Dead Code Discovery'',
                 te_description = ''Find unused exports.'', te_invocation = ''autonomous''\<rparr>
      else if name = ''commit''
      then Some \<lparr>te_id = Commit, te_name = ''Auto-Commit'',
                 te_description = ''Propose a commit.'', te_invocation = ''confirm''\<rparr>
      else None)"

definition dead_code_call :: ToolCall where
  "dead_code_call = \<lparr>tc_id = ''c1'', tc_name = ''dead-code'', tc_arguments = []\<rparr>"

definition example_config :: AgentConfig where
  "example_config = \<lparr>maxTurns = 3, maxTokenBudget = 10000, systemPrompt = [], availableTools = []\<rparr>"

text \<open>Every answer asks for the dead-code tool and reports 600 + 400 tokens.\<close>

definition greedy_provider :: provider where
  "greedy_provider reqs =
     Inr \<lparr>resp_content = [], resp_usage = Some \<lparr>inputTokens = 600, outputTokens = 400\<rparr>,
          resp_toolCalls = Some [dead_code_call]\<rparr>"

definition echo_host :: host where
  "echo_host ys = Some \<lparr>tr_toolCallId = ''c1'', tr_content = ''3 findings'', tr_isError = None\<rparr>"

definition small_budget_config :: AgentConfig where
  "small_budget_config = \<lparr>maxTurns = 3, maxTokenBudget = 1100, systemPrompt = [], availableTools = []\<rparr>"

text \<open>A provider whose every request rejects with \<open>new Error("network down")\<close>.\<close>

definition failing_provider :: provider where
  "failing_provider reqs = Inl (Error_object (Some ''network down''))"

text \<open>
  A provider whose every request rejects with \<open>Object.create(null)\<close>, a value that
  is not an \<open>Error\<close> and that \<open>String\<close> cannot convert.
\<close>

definition unrenderable_provider :: provider where
  "unrenderable_provider reqs = Inl (Other_value None)"


definition start_state :: "AgentConfig \<Rightarrow> run_state" where
  "start_state config =
     \<lparr>messages = initial_messages config [] ''hi'',
      totalInputTokens = 0, totalOutputTokens = 0, requests = [], yielded = [],
      uncaught = None\<rparr>"

definition frobnicate_call :: ToolCall where
  "frobnicate_call = \<lparr>tc_id = ''c7'', tc_name = ''frobnicate'', tc_arguments = []\<rparr>"

definition commit_call :: ToolCall where
  "commit_call = \<lparr>tc_id = ''c2'', tc_name = ''commit'', tc_arguments = []\<rparr>"

definition tools_config :: AgentConfig where
  "tools_config =
     \<lparr>maxTurns = 3, maxTokenBudget = 10000, systemPrompt = [],
      availableTools = [\<lparr>td_name = ''dead-code'', td_description = ''Find unused exports.'', td_inputSchema = []\<rparr>,
                        \<lparr>td_name = ''commit'', td_description = ''Propose a commit.'', td_inputSchema = []\<rparr>]\<rparr>"

definition custom_prompt_config :: AgentConfig where
  "custom_prompt_config =
     \<lparr>maxTurns = 3, maxTokenBudget = 10000, systemPrompt = ''Be brief.'', availableTools = []\<rparr>"

text \<open>The first answer asks for the given calls, every later one is the final text.\<close>

definition calls_then_done :: "ToolCall list \<Rightarrow> provider" where
  "calls_then_done calls reqs =
     (if length reqs = 1
      then Inr \<lparr>resp_content = [], resp_usage = None, resp_toolCalls = Some calls\<rparr>
      else Inr \<lparr>resp_content = ''done'', resp_usage = None, resp_toolCalls = None\<rparr>)"

definition denying_host :: host where
  "denying_host ys = None"

text \<open>A host that answers with a result whose id is not the pending call's.\<close>

definition mismatching_host :: host where
  "mismatching_host ys = Some \<lparr>tr_toolCallId = ''zzz'', tr_content = ''3 findings'', tr_isError = None\<rparr>"

definition review_findings :: "FindingBody list" where
  "review_findings =
     [\<lparr>title = ''Unused export: a'', description = ''d1'', location = line_location ''a.ts'' 3 3,
       severity = Sev_warning, suggestedFix = None, metadata = None\<rparr>,
      \<lparr>title = ''Unused export: b'', description = ''d2'', location = line_location ''b.ts'' 7 7,
       severity = Sev_warning, suggestedFix = None, metadata = None\<rparr>]"

definition review_answer :: "ModelResponse" where
  "review_answer =
     \<lparr>resp_content = ''CONFIRM|a.ts:3'' @ [CHR 10] @ ''DISMISS| b.ts:7 |used by tests'',
      resp_usage = None, resp_toolCalls = None\<rparr>"

definition example_files :: "source_file list" where
  "example_files =
     [\<lparr>sf_path = ''a.ts'',
       sf_read = Some (''export function used() {}'' @ [CHR 10] @ ''export const unused = 1''
                       @ [CHR 10] @ ''export default used''),
       sf_language = Some Typescript\<rparr>,
      \<lparr>sf_path = ''b.ts'', sf_read = Some ''used()'', sf_language = Some Typescript\<rparr>]"

section \<open>Properties of the agent loop\<close>

subsection \<open>Rendering of numbers\<close>

lemma String_0: "String 0 = ''0''"
  by (simp add: String_def digit_char_def string_of_nat.simps)

lemma String_3: "String 3 = ''3''"
  by (simp add: String_def digit_char_def string_of_nat.simps)

lemma String_number_of_nat: "String_number (real n) = string_of_nat n"
  by (simp add: String_number_def unsigned_number_def)


lemma String_number_1000: "String_number 1000 = ''1000''"
  using String_number_of_nat[of 1000] by (simp add: digit_char_def string_of_nat.simps)

lemma String_number_1100: "String_number 1100 = ''1100''"
  using String_number_of_nat[of 1100] by (simp add: digit_char_def string_of_nat.simps)


subsection \<open>The steps of the loop\<close>

lemma processToolCalls_append:
  "processToolCalls config reg hst (xs @ ys) st =
     processToolCalls config reg hst ys (processToolCalls config reg hst xs st)"
  by (induction xs arbitrary: st) (auto simp: Let_def split: option.splits)

lemma processToolCalls_requests [simp]:
  "requests (processToolCalls config reg hst cs st) = requests st"
  by (induction cs arbitrary: st) (auto simp: Let_def push_message_def yield_def split: option.splits)

lemma processToolCalls_totals [simp]:
  "totalInputTokens (processToolCalls config reg hst cs st) = totalInputTokens st"
  "totalOutputTokens (processToolCalls config reg hst cs st) = totalOutputTokens st"
  by (induction cs arbitrary: st) (auto simp: Let_def push_message_def yield_def split: option.splits)

lemma processToolCalls_uncaught [simp]:
  "uncaught (processToolCalls config reg hst cs st) = uncaught st"
  by (induction cs arbitrary: st) (auto simp: Let_def push_message_def yield_def split: option.splits)

lemma yielded_simps [simp]:
  "yielded (yield a st) = yielded st @ [a]"
  "yielded (push_message m st) = yielded st"
  "yielded (log_request config st) = yielded st"
  "yielded (track_usage response st) = yielded st"
  by (simp_all add: yield_def push_message_def log_request_def track_usage_def split: option.splits)

lemma requests_simps [simp]:
  "requests (yield a st) = requests st"
  "requests (push_message m st) = requests st"
  "requests (log_request config st) = requests st @ [make_request config st]"
  "requests (track_usage response st) = requests st"
  "requests (catch_request_failure err st) = requests st"
  by (simp_all add: yield_def push_message_def log_request_def track_usage_def
      catch_request_failure_def split: option.splits)

lemma messages_simps [simp]:
  "messages (yield a st) = messages st"
  "messages (push_message m st) = messages st @ [m]"
  "messages (log_request config st) = messages st"
  "messages (track_usage response st) = messages st"
  "messages (catch_request_failure err st) = messages st"
  by (simp_all add: yield_def push_message_def log_request_def track_usage_def
      catch_request_failure_def split: option.splits)

lemma uncaught_simps [simp]:
  "uncaught (yield a st) = uncaught st"
  "uncaught (push_message m st) = uncaught st"
  "uncaught (log_request config st) = uncaught st"
  "uncaught (track_usage response st) = uncaught st"
  by (simp_all add: yield_def push_message_def log_request_def track_usage_def split: option.splits)

lemma totals_simps [simp]:
  "totalInputTokens (yield a st) = totalInputTokens st"
  "totalOutputTokens (yield a st) = totalOutputTokens st"
  "totalInputTokens (push_message m st) = totalInputTokens st"
  "totalOutputTokens (push_message m st) = totalOutputTokens st"
  "totalInputTokens (log_request config st) = totalInputTokens st"
  "totalOutputTokens (log_request config st) = totalOutputTokens st"
  "totalInputTokens (catch_request_failure err st) = totalInputTokens st"
  "totalOutputTokens (catch_request_failure err st) = totalOutputTokens st"
  by (simp_all add: yield_def push_message_def log_request_def catch_request_failure_def
      split: option.splits)

lemma track_usage_total:
  "totalInputTokens (track_usage response st) + totalOutputTokens (track_usage response st)
     = totalInputTokens st + totalOutputTokens st + reported_by (Inr response)"
  by (simp add: track_usage_def reported_by_def split: option.splits)

lemma catch_renderable:
  "failure_message err = Some m
   \<Longrightarrow> catch_request_failure err st = yield (Act_error (''Model request failed: '' @ m)) st"
  by (simp add: catch_request_failure_def)

lemma catch_unrenderable:
  "failure_message err = None
   \<Longrightarrow> catch_request_failure err st = st\<lparr>uncaught := Some Conversion_exception\<rparr>"
  by (simp add: catch_request_failure_def)

lemma agentLoop_turn_limit:
  "\<not> 0 < t \<Longrightarrow> agentLoop config reg prov hst t st = yield (turn_limit_error config) st"
  by (subst agentLoop.simps) simp

lemma agentLoop_budget:
  "0 < t \<Longrightarrow> maxTokenBudget config - MIN_TOKEN_BUDGET_THRESHOLD \<le> totalInputTokens st + totalOutputTokens st
   \<Longrightarrow> agentLoop config reg prov hst t st
       = yield (budget_error config (totalInputTokens st + totalOutputTokens st)) st"
  by (subst agentLoop.simps) simp

lemma agentLoop_throw:
  "0 < t \<Longrightarrow> \<not> maxTokenBudget config - MIN_TOKEN_BUDGET_THRESHOLD \<le> totalInputTokens st + totalOutputTokens st
   \<Longrightarrow> prov (requests st @ [make_request config st]) = Inl err
   \<Longrightarrow> agentLoop config reg prov hst t st = catch_request_failure err (log_request config st)"
  by (subst agentLoop.simps) simp

lemma agentLoop_response:
  "0 < t \<Longrightarrow> \<not> maxTokenBudget config - MIN_TOKEN_BUDGET_THRESHOLD \<le> totalInputTokens st + totalOutputTokens st
   \<Longrightarrow> prov (requests st @ [make_request config st]) = Inr response
   \<Longrightarrow> no_tool_calls response
   \<Longrightarrow> agentLoop config reg prov hst t st
       = yield (Act_response (resp_content response)
                  (totalInputTokens (track_usage response st))
                  (totalOutputTokens (track_usage response st)))
           (track_usage response (log_request config st))"
  by (subst agentLoop.simps) simp

lemma agentLoop_tool_turn:
  "0 < t \<Longrightarrow> \<not> maxTokenBudget config - MIN_TOKEN_BUDGET_THRESHOLD \<le> totalInputTokens st + totalOutputTokens st
   \<Longrightarrow> prov (requests st @ [make_request config st]) = Inr response
   \<Longrightarrow> \<not> no_tool_calls response
   \<Longrightarrow> agentLoop config reg prov hst t st
       = agentLoop config reg prov hst (t - 1)
           (processToolCalls config reg hst (the (resp_toolCalls response))
              (push_message (assistant_message response)
                 (track_usage response (log_request config st))))"
  by (subst agentLoop.simps) simp

subsection \<open>What a batch of tool calls appends\<close>

lemma expected_action_eq: "expected_action entry c = action_for entry c"
  by (simp add: expected_action_def action_for_def)


lemma expected_results_Nil [simp]: "expected_results config reg hst seen [] = []"
  by (simp add: expected_results_def)

lemma expected_results_Cons:
  "expected_results config reg hst seen (c # cs)
     = expected_result config reg hst seen c
       # expected_results config reg hst (seen @ expected_actions reg [c]) cs"
proof -
  have "[0..<Suc (length cs)] = 0 # [Suc 0..<Suc (length cs)]"
    by (rule upt_conv_Cons) simp
  then have idx: "[0..<length (c # cs)] = 0 # map Suc [0..<length cs]"
    by (simp only: map_Suc_upt list.size(4) One_nat_def add_Suc_right add_0_right)
  show ?thesis
    unfolding expected_results_def idx
    by (cases "reg (tc_name c)") (simp_all add: o_def)
qed


lemma length_expected_results [simp]:
  "length (expected_results config reg hst seen calls) = length calls"
  by (simp add: expected_results_def)

lemma role_expected_result [simp]: "role (expected_result config reg hst seen c) = Tool_result"
  by (simp add: expected_result_def split: option.splits)

lemma processToolCalls_effect:
  "messages (processToolCalls config reg hst calls st)
     = messages st @ expected_results config reg hst (yielded st) calls
   \<and> yielded (processToolCalls config reg hst calls st)
     = yielded st @ expected_actions reg calls"
proof (induction calls arbitrary: st)
  case Nil
  then show ?case by simp
next
  case (Cons c cs)
  show ?case
  proof (cases "reg (tc_name c)")
    case None
    with Cons[of "push_message (unknown_tool_message config c) st"] show ?thesis
      by (simp add: expected_results_Cons expected_result_def unknown_tool_message_def)
  next
    case (Some entry)
    let ?st1 = "yield (action_for entry c) st"
    show ?thesis
    proof (cases "hst (yielded ?st1)")
      case None
      with Some Cons[of "push_message (skipped_message c) ?st1"] show ?thesis
        by (simp add: expected_results_Cons expected_result_def skipped_message_def
            expected_action_eq Let_def)
    next
      case (Some r)
      with \<open>reg (tc_name c) = Some entry\<close> Cons[of "push_message (host_result_message r) ?st1"]
      show ?thesis
        by (simp add: expected_results_Cons expected_result_def host_result_message_def
            expected_action_eq Let_def)
    qed
  qed
qed

lemma processToolCalls_messages:
  "messages (processToolCalls config reg hst calls st)
     = messages st @ expected_results config reg hst (yielded st) calls"
  by (simp add: processToolCalls_effect)

lemma processToolCalls_yielded:
  "yielded (processToolCalls config reg hst calls st) = yielded st @ expected_actions reg calls"
  by (simp add: processToolCalls_effect)

lemma is_tool_action_expected_actions: "list_all is_tool_action (expected_actions reg calls)"
  by (induction calls) (auto simp: expected_action_def is_tool_action_def split: option.splits)

subsection \<open>The five ways an iteration goes\<close>

lemma agentLoop_cases [case_names limit budget throw final tools]:
  obtains
    (limit) "\<not> 0 < t"
      and "agentLoop config reg prov hst t st = yield (turn_limit_error config) st"
  | (budget) "0 < t"
      and "maxTokenBudget config - 100 \<le> totalInputTokens st + totalOutputTokens st"
      and "agentLoop config reg prov hst t st
             = yield (budget_error config (totalInputTokens st + totalOutputTokens st)) st"
  | (throw) err where "0 < t"
      and "totalInputTokens st + totalOutputTokens st < maxTokenBudget config - 100"
      and "prov (requests st @ [make_request config st]) = Inl err"
      and "agentLoop config reg prov hst t st = catch_request_failure err (log_request config st)"
  | (final) response where "0 < t"
      and "totalInputTokens st + totalOutputTokens st < maxTokenBudget config - 100"
      and "prov (requests st @ [make_request config st]) = Inr response"
      and "no_tool_calls response"
      and "agentLoop config reg prov hst t st
             = yield (Act_response (resp_content response)
                        (totalInputTokens (track_usage response st))
                        (totalOutputTokens (track_usage response st)))
                 (track_usage response (log_request config st))"
  | (tools) response calls where "0 < t"
      and "totalInputTokens st + totalOutputTokens st < maxTokenBudget config - 100"
      and "prov (requests st @ [make_request config st]) = Inr response"
      and "resp_toolCalls response = Some calls" and "calls \<noteq> []"
      and "agentLoop config reg prov hst t st
             = agentLoop config reg prov hst (t - 1)
                 (processToolCalls config reg hst calls
                    (push_message (assistant_message response)
                       (track_usage response (log_request config st))))"
proof -
  let ?over = "maxTokenBudget config - MIN_TOKEN_BUDGET_THRESHOLD
      \<le> totalInputTokens st + totalOutputTokens st"
  show thesis
  proof (cases "0 < t")
    case False
    then show thesis
      using limit agentLoop_turn_limit by blast
  next
    case turns: True
    show thesis
    proof (cases ?over)
      case True
      then show thesis
        using turns budget[OF turns] agentLoop_budget[OF turns True]
        by (simp add: MIN_TOKEN_BUDGET_THRESHOLD_def)
    next
      case under: False
      then have u: "totalInputTokens st + totalOutputTokens st < maxTokenBudget config - 100"
        by (simp add: MIN_TOKEN_BUDGET_THRESHOLD_def)
      show thesis
      proof (cases "prov (requests st @ [make_request config st])")
        case (Inl err)
        then show thesis
          using throw[OF turns u Inl] agentLoop_throw[of t config st prov err reg hst] turns under
          by simp
      next
        case (Inr response)
        show thesis
        proof (cases "no_tool_calls response")
          case True
          then show thesis
            using final[OF turns u Inr True] agentLoop_response[of t config st prov response reg hst]
              turns under Inr
            by simp
        next
          case False
          then obtain calls where c: "resp_toolCalls response = Some calls" "calls \<noteq> []"
            by (auto simp: no_tool_calls_def split: option.splits)
          have "agentLoop config reg prov hst t st
             = agentLoop config reg prov hst (t - 1)
                 (processToolCalls config reg hst calls
                    (push_message (assistant_message response)
                       (track_usage response (log_request config st))))"
            using agentLoop_tool_turn[of t config st prov response reg hst] turns under Inr False c(1)
            by simp
          then show thesis
            using tools[OF turns u Inr c] by blast
        qed
      qed
    qed
  qed
qed

lemma agentLoop_induct' [case_names step]:
  fixes P :: "AgentConfig \<Rightarrow> registry \<Rightarrow> provider \<Rightarrow> host \<Rightarrow> real \<Rightarrow> run_state \<Rightarrow> bool"
  assumes "\<And>config reg prov hst t st.
     (\<And>response calls. 0 < t
        \<Longrightarrow> totalInputTokens st + totalOutputTokens st < maxTokenBudget config - 100
        \<Longrightarrow> prov (requests st @ [make_request config st]) = Inr response
        \<Longrightarrow> resp_toolCalls response = Some calls \<Longrightarrow> calls \<noteq> []
        \<Longrightarrow> P config reg prov hst (t - 1)
              (processToolCalls config reg hst calls
                 (push_message (assistant_message response)
                    (track_usage response (log_request config st)))))
     \<Longrightarrow> P config reg prov hst t st"
  shows "P config reg prov hst t st"
proof (induction config reg prov hst t st rule: agentLoop.induct)
  case (1 config reg prov hst t st)
  show ?case
  proof (rule assms)
    fix response calls
    assume a: "0 < t" "totalInputTokens st + totalOutputTokens st < maxTokenBudget config - 100"
      "prov (requests st @ [make_request config st]) = Inr response"
      "resp_toolCalls response = Some calls" "calls \<noteq> []"
    have "P config reg prov hst (t - 1)
              (processToolCalls config reg hst (the (resp_toolCalls response))
                 (push_message (assistant_message response)
                    (track_usage response (log_request config st))))"
      by (rule "1.IH") (use a in \<open>simp_all add: MIN_TOKEN_BUDGET_THRESHOLD_def no_tool_calls_def\<close>)
    then show "P config reg prov hst (t - 1)
              (processToolCalls config reg hst calls
                 (push_message (assistant_message response)
                    (track_usage response (log_request config st))))"
      using a(4) by simp
  qed
qed

text \<open>Messages, requests and actions are only ever appended.\<close>

lemma agentLoop_messages_prefix:
  "prefix (messages st) (messages (agentLoop config reg prov hst t st))"
proof (induction config reg prov hst t st rule: agentLoop_induct')
  case (step config reg prov hst t st)
  show ?case
  proof (cases rule: agentLoop_cases[where t = t and config = config and st = st and prov = prov and reg = reg and hst = hst])
    case (tools response calls)
    from step[OF tools(1-5)] show ?thesis
      unfolding tools(6) by (auto simp: processToolCalls_messages prefix_def)
  qed simp_all
qed

lemma agentLoop_requests_prefix:
  "prefix (requests st) (requests (agentLoop config reg prov hst t st))"
proof (induction config reg prov hst t st rule: agentLoop_induct')
  case (step config reg prov hst t st)
  show ?case
  proof (cases rule: agentLoop_cases[where t = t and config = config and st = st and prov = prov and reg = reg and hst = hst])
    case (tools response calls)
    from step[OF tools(1-5)] show ?thesis
      unfolding tools(6) by (auto simp: prefix_def)
  qed simp_all
qed

lemma agentLoop_yielded_prefix:
  "prefix (yielded st) (yielded (agentLoop config reg prov hst t st))"
proof (induction config reg prov hst t st rule: agentLoop_induct')
  case (step config reg prov hst t st)
  show ?case
  proof (cases rule: agentLoop_cases[where t = t and config = config and st = st and prov = prov and reg = reg and hst = hst])
    case (throw err)
    then show ?thesis
      by (cases "failure_message err") (simp_all add: catch_renderable catch_unrenderable)
  next
    case (tools response calls)
    from step[OF tools(1-5)] show ?thesis
      unfolding tools(6) by (auto simp: processToolCalls_yielded prefix_def)
  qed simp_all
qed

lemma agentLoop_first_request:
  "requests (agentLoop config reg prov hst t st) = requests st
   \<or> prefix (requests st @ [make_request config st]) (requests (agentLoop config reg prov hst t st))"
proof (cases rule: agentLoop_cases[where t = t and config = config and st = st and prov = prov and reg = reg and hst = hst])
  case (tools response calls)
  have "prefix (requests (processToolCalls config reg hst calls
                    (push_message (assistant_message response)
                       (track_usage response (log_request config st)))))
     (requests (agentLoop config reg prov hst t st))"
    unfolding tools(6) by (rule agentLoop_requests_prefix)
  then show ?thesis by simp
qed simp_all

lemma agentLoop_sends_request:
  assumes "0 < t" and "totalInputTokens st + totalOutputTokens st < maxTokenBudget config - 100"
  shows "prefix (requests st @ [make_request config st]) (requests (agentLoop config reg prov hst t st))"
proof (cases rule: agentLoop_cases[where t = t and config = config and st = st and prov = prov and reg = reg and hst = hst])
  case (tools response calls)
  have "prefix (requests (processToolCalls config reg hst calls
                    (push_message (assistant_message response)
                       (track_usage response (log_request config st)))))
     (requests (agentLoop config reg prov hst t st))"
    unfolding tools(6) by (rule agentLoop_requests_prefix)
  then show ?thesis by simp
qed (use assms in simp_all)

text \<open>
  A run that ends normally has yielded tool actions and then exactly one terminal
  action; a run that ends with an exception has yielded tool actions only.
\<close>

lemma agentLoop_shape:
  "\<exists>acts. list_all is_tool_action acts
     \<and> ((uncaught (agentLoop config reg prov hst t st) = uncaught st
          \<and> (\<exists>a. yielded (agentLoop config reg prov hst t st) = yielded st @ acts @ [a]
                 \<and> \<not> is_tool_action a))
        \<or> (uncaught (agentLoop config reg prov hst t st) = Some Conversion_exception
          \<and> yielded (agentLoop config reg prov hst t st) = yielded st @ acts))"
proof (induction config reg prov hst t st rule: agentLoop_induct')
  case (step config reg prov hst t st)
  show ?case
  proof (cases rule: agentLoop_cases[where t = t and config = config and st = st and prov = prov and reg = reg and hst = hst])
    case limit
    then show ?thesis
      by (intro exI[of _ "[]"]) (simp add: turn_limit_error_def is_tool_action_def)
  next
    case budget
    then show ?thesis
      by (intro exI[of _ "[]"]) (simp add: budget_error_def is_tool_action_def)
  next
    case (throw err)
    then show ?thesis
      by (cases "failure_message err")
        (auto simp: catch_renderable catch_unrenderable is_tool_action_def log_request_def
          intro!: exI[of _ "[]"])
  next
    case (final response)
    then show ?thesis
      by (intro exI[of _ "[]"]) (simp add: is_tool_action_def)
  next
    case (tools response calls)
    let ?st' = "processToolCalls config reg hst calls
                    (push_message (assistant_message response)
                       (track_usage response (log_request config st)))"
    let ?r = "agentLoop config reg prov hst (t - 1) ?st'"
    from step[OF tools(1-5)] obtain acts where
      ih: "list_all is_tool_action acts"
        "(uncaught ?r = uncaught ?st'
            \<and> (\<exists>a. yielded ?r = yielded ?st' @ acts @ [a] \<and> \<not> is_tool_action a))
         \<or> (uncaught ?r = Some Conversion_exception \<and> yielded ?r = yielded ?st' @ acts)"
      by blast
    have y: "yielded ?st' = yielded st @ expected_actions reg calls"
      by (simp add: processToolCalls_yielded)
    have u: "uncaught ?st' = uncaught st"
      by simp
    have "list_all is_tool_action (expected_actions reg calls @ acts)"
      using ih(1) is_tool_action_expected_actions by simp
    moreover have "(uncaught ?r = uncaught st
            \<and> (\<exists>a. yielded ?r = yielded st @ (expected_actions reg calls @ acts) @ [a]
                 \<and> \<not> is_tool_action a))
         \<or> (uncaught ?r = Some Conversion_exception
            \<and> yielded ?r = yielded st @ (expected_actions reg calls @ acts))"
      using ih(2) unfolding y u by simp
    ultimately show ?thesis
      unfolding tools(6) by blast
  qed
qed

lemma run_yields_exactly_one_terminal:
  assumes "uncaught (runAgentLoop reg prov hst config history userMessage) = None"
  shows "\<exists>acts a. yielded (runAgentLoop reg prov hst config history userMessage) = acts @ [a]
      \<and> list_all is_tool_action acts \<and> \<not> is_tool_action a"
  using assms agentLoop_shape[of config reg prov hst "maxTurns config"
      "\<lparr>messages = initial_messages config history userMessage,
        totalInputTokens = 0, totalOutputTokens = 0, requests = [], yielded = [],
        uncaught = None\<rparr>"]
  by (auto simp: runAgentLoop_def)

subsection \<open>Token budget\<close>

lemma reported_usage_Nil [simp]: "reported_usage prov [] = 0"
  by (simp add: reported_usage_def)

lemma reported_usage_snoc:
  "reported_usage prov (reqs @ [r]) = reported_usage prov reqs + reported_by (prov (reqs @ [r]))"
proof -
  have eq: "map (\<lambda>k. reported_by (prov (take (Suc k) (reqs @ [r])))) [0..<length reqs]
      = map (\<lambda>k. reported_by (prov (take (Suc k) reqs))) [0..<length reqs]"
    by (rule map_cong) simp_all
  show ?thesis
    by (simp add: reported_usage_def eq del: take_append)
qed

text \<open>
  The running total is the usage that the provider reported in its answers to the
  requests sent so far, and every request was sent with that usage below the threshold.
\<close>

lemma agentLoop_usage:
  assumes "totalInputTokens st + totalOutputTokens st = reported_usage prov (requests st)"
    and "\<forall>k<length (requests st).
           reported_usage prov (take k (requests st)) < maxTokenBudget config - 100"
  shows "totalInputTokens (agentLoop config reg prov hst t st)
           + totalOutputTokens (agentLoop config reg prov hst t st)
         = reported_usage prov (requests (agentLoop config reg prov hst t st))
       \<and> (\<forall>k<length (requests (agentLoop config reg prov hst t st)).
             reported_usage prov (take k (requests (agentLoop config reg prov hst t st)))
               < maxTokenBudget config - 100)"
  using assms
proof (induction config reg prov hst t st rule: agentLoop_induct')
  case (step config reg prov hst t st)
  note I = step.prems(1) and J = step.prems(2)
  have J': "\<forall>k<length (requests st @ [req]).
           reported_usage prov (take k (requests st @ [req])) < maxTokenBudget config - 100"
    if "totalInputTokens st + totalOutputTokens st < maxTokenBudget config - 100" for req
  proof (intro allI impI)
    fix k
    assume "k < length (requests st @ [req])"
    then consider "k < length (requests st)" | "k = length (requests st)"
      by fastforce
    then show "reported_usage prov (take k (requests st @ [req])) < maxTokenBudget config - 100"
    proof cases
      case 1
      then show ?thesis using J by simp
    next
      case 2
      then show ?thesis using I that by simp
    qed
  qed
  show ?case
  proof (cases rule: agentLoop_cases[where t = t and config = config and st = st and prov = prov and reg = reg and hst = hst])
    case limit
    then show ?thesis using I J by simp
  next
    case budget
    then show ?thesis using I J by simp
  next
    case (throw err)
    have "totalInputTokens st + totalOutputTokens st
        = reported_usage prov (requests st @ [make_request config st])"
      using I throw(3) by (simp add: reported_usage_snoc reported_by_def)
    then show ?thesis
      using J'[OF throw(2)] unfolding throw(4) by simp
  next
    case (final response)
    have "totalInputTokens (track_usage response st) + totalOutputTokens (track_usage response st)
        = reported_usage prov (requests st @ [make_request config st])"
      using I final(3) by (simp add: reported_usage_snoc track_usage_total)
    moreover have "totalInputTokens (track_usage response (log_request config st))
        = totalInputTokens (track_usage response st)"
      "totalOutputTokens (track_usage response (log_request config st))
        = totalOutputTokens (track_usage response st)"
      by (simp_all add: track_usage_def log_request_def split: option.splits)
    ultimately show ?thesis
      using J'[OF final(2)] unfolding final(5) by simp
  next
    case (tools response calls)
    let ?st' = "processToolCalls config reg hst calls
                    (push_message (assistant_message response)
                       (track_usage response (log_request config st)))"
    have t: "totalInputTokens (track_usage response (log_request config st))
        = totalInputTokens (track_usage response st)"
      "totalOutputTokens (track_usage response (log_request config st))
        = totalOutputTokens (track_usage response st)"
      by (simp_all add: track_usage_def log_request_def split: option.splits)
    have "totalInputTokens ?st' + totalOutputTokens ?st' = reported_usage prov (requests ?st')"
      using I tools(3) by (simp add: reported_usage_snoc track_usage_total t)
    moreover have "\<forall>k<length (requests ?st').
           reported_usage prov (take k (requests ?st')) < maxTokenBudget config - 100"
      using J'[OF tools(2)] by simp
    ultimately show ?thesis
      unfolding tools(6) by (rule step.IH[OF tools(1-5)])
  qed
qed

text \<open>
  A run that stops with turns left although the last answer asked for tools has
  stopped on the budget check, and its last action reports the accrued usage.
\<close>

lemma agentLoop_budget_stop:
  assumes "totalInputTokens st + totalOutputTokens st = reported_usage prov (requests st)"
    and "real (length (requests (agentLoop config reg prov hst t st)))
           - real (length (requests st)) < t"
    and "requests (agentLoop config reg prov hst t st) = requests st
         \<or> (\<exists>response calls. prov (requests (agentLoop config reg prov hst t st)) = Inr response
               \<and> resp_toolCalls response = Some calls \<and> calls \<noteq> [])"
  shows "\<exists>acts. yielded (agentLoop config reg prov hst t st)
             = yielded st @ acts
               @ [budget_error config
                    (reported_usage prov (requests (agentLoop config reg prov hst t st)))]
           \<and> list_all is_tool_action acts
           \<and> maxTokenBudget config - 100
               \<le> reported_usage prov (requests (agentLoop config reg prov hst t st))"
  using assms
proof (induction config reg prov hst t st rule: agentLoop_induct')
  case (step config reg prov hst t st)
  note I = step.prems(1) and turns = step.prems(2) and last_answer = step.prems(3)
  show ?case
  proof (cases rule: agentLoop_cases[where t = t and config = config and st = st and prov = prov and reg = reg and hst = hst])
    case limit
    then show ?thesis using turns by simp
  next
    case budget
    then show ?thesis
      using I by (intro exI[of _ "[]"]) simp
  next
    case (throw err)
    then show ?thesis using last_answer by simp
  next
    case (final response)
    then show ?thesis
      using last_answer by (auto simp: no_tool_calls_def)
  next
    case (tools response calls)
    let ?st' = "processToolCalls config reg hst calls
                    (push_message (assistant_message response)
                       (track_usage response (log_request config st)))"
    let ?r = "agentLoop config reg prov hst (t - 1) ?st'"
    have t: "totalInputTokens (track_usage response (log_request config st))
        = totalInputTokens (track_usage response st)"
      "totalOutputTokens (track_usage response (log_request config st))
        = totalOutputTokens (track_usage response st)"
      by (simp_all add: track_usage_def log_request_def split: option.splits)
    have I': "totalInputTokens ?st' + totalOutputTokens ?st' = reported_usage prov (requests ?st')"
      using I tools(3) by (simp add: reported_usage_snoc track_usage_total t)
    have p: "prefix (requests ?st') (requests ?r)"
      by (rule agentLoop_requests_prefix)
    then have len: "length (requests st) + 1 \<le> length (requests ?r)"
      by (auto simp: prefix_def)
    have turns': "real (length (requests ?r)) - real (length (requests ?st')) < t - 1"
      using turns unfolding tools(6) by simp
    have "requests ?r \<noteq> requests st"
      using len by auto
    with last_answer have last': "requests ?r = requests ?st'
         \<or> (\<exists>response calls. prov (requests ?r) = Inr response
               \<and> resp_toolCalls response = Some calls \<and> calls \<noteq> [])"
      unfolding tools(6) by blast
    from step.IH[OF tools(1-5) I' turns' last'] obtain acts where
      ih: "yielded ?r = yielded ?st' @ acts @ [budget_error config (reported_usage prov (requests ?r))]"
        "list_all is_tool_action acts"
        "maxTokenBudget config - 100 \<le> reported_usage prov (requests ?r)"
      by blast
    have "yielded ?r = yielded st @ (expected_actions reg calls @ acts)
        @ [budget_error config (reported_usage prov (requests ?r))]"
      using ih(1) by (simp add: processToolCalls_yielded)
    moreover have "list_all is_tool_action (expected_actions reg calls @ acts)"
      using ih(2) is_tool_action_expected_actions by simp
    ultimately show ?thesis
      unfolding tools(6) using ih(3) by blast
  qed
qed

text \<open>
  C1. (1) Whenever an iteration of the loop starts (turns remain) with the running
  total of input plus output tokens at or above \<open>maxTokenBudget - 100\<close>, the loop
  appends one error action, whose message reports the exhausted budget, to what it has
  yielded and stops: nothing else of the state changes, in particular no request is
  sent. (2) In a run the running total is the usage that the provider reported in its
  answers to the requests sent, an absent usage counting as zero, and (3) no request is
  sent once the usage reported so far has reached the threshold. (4) A run in which
  another iteration starts after the last request (turns remain, and the last answer,
  if any, asked for tools) with the reported usage at or above the threshold ends with
  the error action that reports this usage.
\<close>

theorem budget_exhaustion_stops_run:
  "(0 < turnsRemaining
      \<and> maxTokenBudget config - 100 \<le> totalInputTokens st + totalOutputTokens st \<longrightarrow>
    agentLoop config reg prov hst turnsRemaining st
      = st\<lparr>yielded := yielded st @
            [Act_error (''Token budget exhausted (''
               @ String_number (totalInputTokens st + totalOutputTokens st) @ '' / ''
               @ String_number (maxTokenBudget config) @ '' tokens used).'')]\<rparr>)
   \<and> totalInputTokens (runAgentLoop reg prov hst config history userMessage)
       + totalOutputTokens (runAgentLoop reg prov hst config history userMessage)
     = reported_usage prov (requests (runAgentLoop reg prov hst config history userMessage))
   \<and> (\<forall>k<length (requests (runAgentLoop reg prov hst config history userMessage)).
         reported_usage prov (take k (requests (runAgentLoop reg prov hst config history userMessage)))
           < maxTokenBudget config - 100)
   \<and> (real (length (requests (runAgentLoop reg prov hst config history userMessage)))
         < maxTurns config
      \<and> (requests (runAgentLoop reg prov hst config history userMessage) = []
         \<or> (\<exists>response calls.
               prov (requests (runAgentLoop reg prov hst config history userMessage)) = Inr response
               \<and> resp_toolCalls response = Some calls \<and> calls \<noteq> []))
      \<and> maxTokenBudget config - 100
           \<le> reported_usage prov (requests (runAgentLoop reg prov hst config history userMessage))
      \<longrightarrow>
      (\<exists>acts. yielded (runAgentLoop reg prov hst config history userMessage)
          = acts @ [Act_error (''Token budget exhausted (''
               @ String_number
                   (reported_usage prov (requests (runAgentLoop reg prov hst config history userMessage)))
               @ '' / '' @ String_number (maxTokenBudget config) @ '' tokens used).'')]
        \<and> list_all is_tool_action acts))"
proof -
  let ?st = "\<lparr>messages = initial_messages config history userMessage,
        totalInputTokens = 0, totalOutputTokens = 0, requests = [], yielded = [],
        uncaught = None\<rparr>"
  let ?r = "agentLoop config reg prov hst (maxTurns config) ?st"
  have run: "runAgentLoop reg prov hst config history userMessage = ?r"
    by (simp add: runAgentLoop_def)
  have a: "0 < turnsRemaining
      \<and> maxTokenBudget config - 100 \<le> totalInputTokens st + totalOutputTokens st \<longrightarrow>
    agentLoop config reg prov hst turnsRemaining st
      = st\<lparr>yielded := yielded st @
            [Act_error (''Token budget exhausted (''
               @ String_number (totalInputTokens st + totalOutputTokens st) @ '' / ''
               @ String_number (maxTokenBudget config) @ '' tokens used).'')]\<rparr>"
    by (simp add: agentLoop_budget MIN_TOKEN_BUDGET_THRESHOLD_def yield_def budget_error_def)
  have b: "totalInputTokens ?r + totalOutputTokens ?r = reported_usage prov (requests ?r)
       \<and> (\<forall>k<length (requests ?r). reported_usage prov (take k (requests ?r))
               < maxTokenBudget config - 100)"
    by (rule agentLoop_usage) simp_all
  have c: "\<exists>acts. yielded ?r
          = acts @ [Act_error (''Token budget exhausted (''
               @ String_number (reported_usage prov (requests ?r))
               @ '' / '' @ String_number (maxTokenBudget config) @ '' tokens used).'')]
        \<and> list_all is_tool_action acts"
    if "real (length (requests ?r)) < maxTurns config"
      and "requests ?r = [] \<or> (\<exists>response calls. prov (requests ?r) = Inr response
               \<and> resp_toolCalls response = Some calls \<and> calls \<noteq> [])"
  proof -
    have "\<exists>acts. yielded ?r
             = yielded ?st @ acts @ [budget_error config (reported_usage prov (requests ?r))]
           \<and> list_all is_tool_action acts
           \<and> maxTokenBudget config - 100 \<le> reported_usage prov (requests ?r)"
      by (rule agentLoop_budget_stop) (use that in simp_all)
    then show ?thesis
      by (auto simp: budget_error_def)
  qed
  show ?thesis
    unfolding run using a b c by blast
qed

text \<open>
  A run with three turns and a budget of 1100: the first answer asks for the dead-code
  tool and reports 600 + 400 tokens, which is exactly the budget less 100, and the
  second iteration stops on the budget check before any further request.
\<close>

theorem budget_exhaustion_stops_run_witness:
  "runAgentLoop example_registry greedy_provider echo_host small_budget_config [] ''hi''
     = \<lparr>messages = initial_messages small_budget_config [] ''hi''
          @ [\<lparr>role = Assistant, content = [], toolCalls = Some [dead_code_call], toolCallId = None\<rparr>,
             \<lparr>role = Tool_result, content = ''3 findings'', toolCalls = None,
              toolCallId = Some ''c1''\<rparr>],
        totalInputTokens = 600, totalOutputTokens = 400,
        requests = [\<lparr>req_role = ''chat'', req_messages = initial_messages small_budget_config [] ''hi'',
                     req_tools = None\<rparr>],
        yielded = [Act_tool_call Dead_code ''c1'' [],
                   Act_error ''Token budget exhausted (1000 / 1100 tokens used).''],
        uncaught = None\<rparr>
   \<and> reported_usage greedy_provider
        (requests (runAgentLoop example_registry greedy_provider echo_host small_budget_config [] ''hi''))
     = 1000
   \<and> real (length (requests (runAgentLoop example_registry greedy_provider echo_host
                                 small_budget_config [] ''hi'')))
        < maxTurns small_budget_config
   \<and> maxTokenBudget small_budget_config - 100
        \<le> reported_usage greedy_provider
             (requests (runAgentLoop example_registry greedy_provider echo_host
                          small_budget_config [] ''hi''))
   \<and> (\<exists>acts. yielded (runAgentLoop example_registry greedy_provider echo_host
                          small_budget_config [] ''hi'')
          = acts @ [Act_error ''Token budget exhausted (1000 / 1100 tokens used).''])"
proof -
  let ?run = "runAgentLoop example_registry greedy_provider echo_host small_budget_config [] ''hi''"
  let ?st1 = "\<lparr>messages = initial_messages small_budget_config [] ''hi''
          @ [\<lparr>role = Assistant, content = [], toolCalls = Some [dead_code_call], toolCallId = None\<rparr>,
             \<lparr>role = Tool_result, content = ''3 findings'', toolCalls = None,
              toolCallId = Some ''c1''\<rparr>],
        totalInputTokens = 600, totalOutputTokens = 400,
        requests = [\<lparr>req_role = ''chat'', req_messages = initial_messages small_budget_config [] ''hi'',
                     req_tools = None\<rparr>],
        yielded = [Act_tool_call Dead_code ''c1'' []],
        uncaught = None\<rparr>"
  have run: "?run = ?st1\<lparr>yielded := [Act_tool_call Dead_code ''c1'' [],
                   Act_error ''Token budget exhausted (1000 / 1100 tokens used).'']\<rparr>"
    by (simp add: runAgentLoop_def agentLoop.simps small_budget_config_def greedy_provider_def
        MIN_TOKEN_BUDGET_THRESHOLD_def no_tool_calls_def dead_code_call_def example_registry_def
        echo_host_def action_for_def yield_def push_message_def track_usage_def log_request_def
        make_request_def assistant_message_def host_result_message_def budget_error_def
        String_number_1000 String_number_1100 Let_def)
  have answer: "greedy_provider (requests ?run)
      = Inr \<lparr>resp_content = [], resp_usage = Some \<lparr>inputTokens = 600, outputTokens = 400\<rparr>,
             resp_toolCalls = Some [dead_code_call]\<rparr>"
    by (simp add: greedy_provider_def)
  have usage: "reported_usage greedy_provider (requests ?run) = 1000"
    unfolding run by (simp add: reported_usage_def reported_by_def greedy_provider_def)
  have turns: "real (length (requests ?run)) < maxTurns small_budget_config"
    unfolding run by (simp add: small_budget_config_def)
  have over: "maxTokenBudget small_budget_config - 100
      \<le> reported_usage greedy_provider (requests ?run)"
    unfolding usage by (simp add: small_budget_config_def)
  note th = budget_exhaustion_stops_run[of 2 small_budget_config ?st1 example_registry
      greedy_provider echo_host "[]" "''hi''"]
  have "agentLoop small_budget_config example_registry greedy_provider echo_host 2 ?st1
      = ?st1\<lparr>yielded := [Act_tool_call Dead_code ''c1'' [],
                   Act_error ''Token budget exhausted (1000 / 1100 tokens used).'']\<rparr>"
    using th by (simp add: small_budget_config_def String_number_1000 String_number_1100)
  then have again: "agentLoop small_budget_config example_registry greedy_provider echo_host 2 ?st1
      = ?run"
    unfolding run .
  have last_answer: "requests ?run = []
      \<or> (\<exists>response calls. greedy_provider (requests ?run) = Inr response
            \<and> resp_toolCalls response = Some calls \<and> calls \<noteq> [])"
    using answer by simp
  have "\<exists>acts. yielded ?run
          = acts @ [Act_error (''Token budget exhausted (''
               @ String_number (reported_usage greedy_provider (requests ?run))
               @ '' / '' @ String_number (maxTokenBudget small_budget_config)
               @ '' tokens used).'')]
        \<and> list_all is_tool_action acts"
    by (rule th[THEN conjunct2, THEN conjunct2, THEN conjunct2, rule_format])
      (use turns last_answer over in blast)
  then have stops: "\<exists>acts. yielded ?run
          = acts @ [Act_error ''Token budget exhausted (1000 / 1100 tokens used).'']"
    unfolding usage by (auto simp: small_budget_config_def String_number_1000 String_number_1100)
  have run': "?run
     = \<lparr>messages = initial_messages small_budget_config [] ''hi''
          @ [\<lparr>role = Assistant, content = [], toolCalls = Some [dead_code_call], toolCallId = None\<rparr>,
             \<lparr>role = Tool_result, content = ''3 findings'', toolCalls = None,
              toolCallId = Some ''c1''\<rparr>],
        totalInputTokens = 600, totalOutputTokens = 400,
        requests = [\<lparr>req_role = ''chat'', req_messages = initial_messages small_budget_config [] ''hi'',
                     req_tools = None\<rparr>],
        yielded = [Act_tool_call Dead_code ''c1'' [],
                   Act_error ''Token budget exhausted (1000 / 1100 tokens used).''],
        uncaught = None\<rparr>"
    unfolding run by simp
  show ?thesis
    by (rule conjI[OF run' conjI[OF usage conjI[OF turns conjI[OF over stops]]]])
qed

subsection \<open>Turn limit\<close>






subsection \<open>Provider failures\<close>

text \<open>
  When the provider's \<open>sendRequest\<close> throws a value whose message can be rendered, the
  loop returns normally: the request is logged, one error action carrying the failure
  message is appended to what was yielded, and nothing follows it.
\<close>

lemma renderable_failure_yields_terminal_error:
  assumes "0 < turnsRemaining"
    and "totalInputTokens st + totalOutputTokens st < maxTokenBudget config - 100"
    and "prov (requests st @ [make_request config st]) = Inl err"
    and "err = Error_object (Some m) \<or> err = Other_value (Some m)"
  shows "agentLoop config reg prov hst turnsRemaining st =
           st\<lparr>requests := requests st @ [make_request config st],
               yielded := yielded st @ [Act_error (''Model request failed: '' @ m)]\<rparr>"
proof -
  have "failure_message err = Some m"
    using assms(4) by (auto simp: failure_message_def)
  then show ?thesis
    using assms(1-3)
    by (simp add: agentLoop_throw MIN_TOKEN_BUDGET_THRESHOLD_def catch_renderable yield_def
        log_request_def)
qed

text \<open>
  When the message of the thrown value cannot be rendered, the \<open>catch\<close> block throws
  itself: the request is logged, nothing is yielded and the exception leaves the
  generator.
\<close>

lemma unrenderable_failure_leaves_generator:
  assumes "0 < turnsRemaining"
    and "totalInputTokens st + totalOutputTokens st < maxTokenBudget config - 100"
    and "prov (requests st @ [make_request config st]) = Inl err"
    and "err = Error_object None \<or> err = Other_value None"
  shows "agentLoop config reg prov hst turnsRemaining st =
           st\<lparr>requests := requests st @ [make_request config st],
               uncaught := Some Conversion_exception\<rparr>"
proof -
  have "failure_message err = None"
    using assms(4) by (auto simp: failure_message_def)
  then show ?thesis
    using assms(1-3)
    by (simp add: agentLoop_throw MIN_TOKEN_BUDGET_THRESHOLD_def catch_unrenderable
        log_request_def)
qed

text \<open>
  C4. The claim fails for a provider that rejects with \<open>Object.create(null)\<close>: the
  \<open>catch\<close> block evaluates \<open>String(err)\<close>, which throws a \<open>TypeError\<close>; the run
  has sent its one request, yields no action at all, and ends with that exception,
  which reaches the host. The same run with a provider that rejects with
  \<open>new Error("network down")\<close> ends normally with the one error action that the
  claim asks for.
\<close>

theorem unrenderable_failure_reaches_host:
  "runAgentLoop example_registry unrenderable_provider echo_host example_config [] ''hi''
     = \<lparr>messages = initial_messages example_config [] ''hi'',
        totalInputTokens = 0, totalOutputTokens = 0,
        requests = [\<lparr>req_role = ''chat'', req_messages = initial_messages example_config [] ''hi'',
                     req_tools = None\<rparr>],
        yielded = [],
        uncaught = Some Conversion_exception\<rparr>
   \<and> runAgentLoop example_registry failing_provider echo_host example_config [] ''hi''
     = \<lparr>messages = initial_messages example_config [] ''hi'',
        totalInputTokens = 0, totalOutputTokens = 0,
        requests = [\<lparr>req_role = ''chat'', req_messages = initial_messages example_config [] ''hi'',
                     req_tools = None\<rparr>],
        yielded = [Act_error ''Model request failed: network down''],
        uncaught = None\<rparr>"
  by (simp add: runAgentLoop_def agentLoop.simps example_config_def unrenderable_provider_def
      failing_provider_def MIN_TOKEN_BUDGET_THRESHOLD_def catch_request_failure_def
      failure_message_def yield_def log_request_def make_request_def)

subsection \<open>Tool calls of one response\<close>

text \<open>
  A response with tool calls: the loop goes on to its next iteration with the assistant
  message and the results of the batch appended, having sent one request and having
  yielded the actions of the registered calls.
\<close>

lemma agentLoop_batch:
  assumes "0 < t"
    and "totalInputTokens st + totalOutputTokens st < maxTokenBudget config - 100"
    and "prov (requests st @ [make_request config st]) = Inr response"
    and "resp_toolCalls response = Some calls" and "calls \<noteq> []"
  shows "\<exists>st'. agentLoop config reg prov hst t st = agentLoop config reg prov hst (t - 1) st'
     \<and> messages st' = messages st @ [assistant_message response]
                        @ expected_results config reg hst (yielded st) calls
     \<and> yielded st' = yielded st @ expected_actions reg calls
     \<and> requests st' = requests st @ [make_request config st]
     \<and> totalInputTokens st' + totalOutputTokens st'
         = totalInputTokens st + totalOutputTokens st + reported_by (Inr response)
     \<and> uncaught st' = uncaught st"
proof -
  let ?st' = "processToolCalls config reg hst calls
                (push_message (assistant_message response)
                   (track_usage response (log_request config st)))"
  have ntc: "\<not> no_tool_calls response"
    using assms(4,5) by (simp add: no_tool_calls_def)
  have "agentLoop config reg prov hst t st = agentLoop config reg prov hst (t - 1) ?st'"
    using agentLoop_tool_turn[of t config st prov response reg hst] assms(1-4) ntc
    by (simp add: MIN_TOKEN_BUDGET_THRESHOLD_def)
  moreover have "totalInputTokens (track_usage response (log_request config st))
        = totalInputTokens (track_usage response st)"
      "totalOutputTokens (track_usage response (log_request config st))
        = totalOutputTokens (track_usage response st)"
    by (simp_all add: track_usage_def log_request_def split: option.splits)
  then have "totalInputTokens ?st' + totalOutputTokens ?st'
         = totalInputTokens st + totalOutputTokens st + reported_by (Inr response)"
    by (simp add: track_usage_total)
  ultimately show ?thesis
    by (intro exI[of _ ?st']) (simp add: processToolCalls_messages processToolCalls_yielded)
qed

lemma agentLoop_batch_run:
  assumes "0 < t"
    and "totalInputTokens st + totalOutputTokens st < maxTokenBudget config - 100"
    and "prov (requests st @ [make_request config st]) = Inr response"
    and "resp_toolCalls response = Some calls" and "calls \<noteq> []"
    and "batch = messages st @ [assistant_message response]
                 @ expected_results config reg hst (yielded st) calls"
    and "r = agentLoop config reg prov hst t st"
  shows "prefix batch (messages r)"
    and "prefix (yielded st @ expected_actions reg calls) (yielded r)"
    and "prefix (requests st @ [make_request config st]) (requests r)"
    and "length (requests st) + 1 < length (requests r) \<longrightarrow>
           requests r ! (length (requests st) + 1)
             = \<lparr>req_role = ''chat'', req_messages = batch,
                req_tools = (if availableTools config = [] then None
                             else Some (availableTools config))\<rparr>"
    and "1 < t \<and> totalInputTokens st + totalOutputTokens st + reported_by (Inr response)
                   < maxTokenBudget config - 100
         \<longrightarrow> length (requests st) + 1 < length (requests r)"
    and "\<not> (1 < t \<and> totalInputTokens st + totalOutputTokens st + reported_by (Inr response)
                   < maxTokenBudget config - 100)
         \<longrightarrow> requests r = requests st @ [make_request config st]
             \<and> (\<exists>a. yielded r = yielded st @ expected_actions reg calls @ [a]
                  \<and> (a = turn_limit_error config
                     \<or> a = budget_error config
                           (totalInputTokens st + totalOutputTokens st
                            + reported_by (Inr response))))"
proof -
  from agentLoop_batch[where t = t and st = st and config = config and prov = prov
      and response = response and calls = calls and reg = reg and hst = hst] assms(1-5)
  obtain st' where
    eq: "agentLoop config reg prov hst t st = agentLoop config reg prov hst (t - 1) st'"
    and m: "messages st' = batch"
    and y: "yielded st' = yielded st @ expected_actions reg calls"
    and q: "requests st' = requests st @ [make_request config st]"
    and u: "totalInputTokens st' + totalOutputTokens st'
         = totalInputTokens st + totalOutputTokens st + reported_by (Inr response)"
    unfolding assms(6) by blast
  have r: "r = agentLoop config reg prov hst (t - 1) st'"
    using assms(7) eq by simp
  show "prefix batch (messages r)"
    unfolding r m[symmetric] by (rule agentLoop_messages_prefix)
  show "prefix (yielded st @ expected_actions reg calls) (yielded r)"
    unfolding r y[symmetric] by (rule agentLoop_yielded_prefix)
  show "prefix (requests st @ [make_request config st]) (requests r)"
    unfolding r q[symmetric] by (rule agentLoop_requests_prefix)
  have n: "length (requests st') = length (requests st) + 1"
    using q by simp
  show "length (requests st) + 1 < length (requests r) \<longrightarrow>
           requests r ! (length (requests st) + 1)
             = \<lparr>req_role = ''chat'', req_messages = batch,
                req_tools = (if availableTools config = [] then None
                             else Some (availableTools config))\<rparr>"
  proof
    assume longer: "length (requests st) + 1 < length (requests r)"
    from agentLoop_first_request[of config reg prov hst "t - 1" st']
    have "prefix (requests st' @ [make_request config st']) (requests r)"
      unfolding r[symmetric] using longer n by auto
    then obtain zs where "requests r = (requests st' @ [make_request config st']) @ zs"
      by (auto simp: prefix_def)
    then have "requests r ! length (requests st') = make_request config st'"
      by (simp add: nth_append)
    then show "requests r ! (length (requests st) + 1)
             = \<lparr>req_role = ''chat'', req_messages = batch,
                req_tools = (if availableTools config = [] then None
                             else Some (availableTools config))\<rparr>"
      unfolding n by (simp add: make_request_def m)
  qed
  show "1 < t \<and> totalInputTokens st + totalOutputTokens st + reported_by (Inr response)
                   < maxTokenBudget config - 100
         \<longrightarrow> length (requests st) + 1 < length (requests r)"
  proof
    assume a: "1 < t \<and> totalInputTokens st + totalOutputTokens st + reported_by (Inr response)
                   < maxTokenBudget config - 100"
    then have "prefix (requests st' @ [make_request config st']) (requests r)"
      unfolding r using agentLoop_sends_request[where t = "t - 1" and st = st' and config = config
          and prov = prov and reg = reg and hst = hst] u by simp
    then show "length (requests st) + 1 < length (requests r)"
      using n by (auto simp: prefix_def)
  qed
  show "\<not> (1 < t \<and> totalInputTokens st + totalOutputTokens st + reported_by (Inr response)
                   < maxTokenBudget config - 100)
         \<longrightarrow> requests r = requests st @ [make_request config st]
             \<and> (\<exists>a. yielded r = yielded st @ expected_actions reg calls @ [a]
                  \<and> (a = turn_limit_error config
                     \<or> a = budget_error config
                           (totalInputTokens st + totalOutputTokens st
                            + reported_by (Inr response))))"
  proof
    assume a: "\<not> (1 < t \<and> totalInputTokens st + totalOutputTokens st + reported_by (Inr response)
                   < maxTokenBudget config - 100)"
    show "requests r = requests st @ [make_request config st]
             \<and> (\<exists>a. yielded r = yielded st @ expected_actions reg calls @ [a]
                  \<and> (a = turn_limit_error config
                     \<or> a = budget_error config
                           (totalInputTokens st + totalOutputTokens st
                            + reported_by (Inr response))))"
    proof (cases "0 < t - 1")
      case False
      then have "r = yield (turn_limit_error config) st'"
        unfolding r by (rule agentLoop_turn_limit)
      then show ?thesis
        using q y by simp
    next
      case True
      with a have "maxTokenBudget config - MIN_TOKEN_BUDGET_THRESHOLD
          \<le> totalInputTokens st' + totalOutputTokens st'"
        unfolding u by (simp add: MIN_TOKEN_BUDGET_THRESHOLD_def)
      with True have "r = yield (budget_error config (totalInputTokens st' + totalOutputTokens st')) st'"
        unfolding r by (rule agentLoop_budget)
      then show ?thesis
        using q y u by simp
    qed
  qed
qed



text \<open>
  C5. For a response with tool calls, the messages of the run go on with the assistant
  message and then exactly one \<open>tool_result\<close> per requested call, in the order of the
  calls, whatever the host answers. The result at the place of a call is the report
  for an unknown tool; the host's result, as the host gave it, for a registered tool;
  and the synthetic skipped-or-denied message when the host resumed with nothing. The
  host is asked with the actions of the registered calls before this one in view. No
  request is sent in between: the next request, when there is one, carries exactly
  these messages, and there is one whenever a turn is left and the budget is not
  exhausted.
\<close>

theorem tool_results_one_per_call_in_order:
  assumes "0 < turnsRemaining"
    and "totalInputTokens st + totalOutputTokens st < maxTokenBudget config - 100"
    and "request = \<lparr>req_role = ''chat'', req_messages = messages st,
                    req_tools = (if availableTools config = [] then None
                                 else Some (availableTools config))\<rparr>"
    and "prov (requests st @ [request]) = Inr response"
    and "resp_toolCalls response = Some calls" and "calls \<noteq> []"
    and "r = agentLoop config reg prov hst turnsRemaining st"
  shows "\<exists>rs. length rs = length calls
     \<and> (\<forall>i<length calls.
          rs ! i =
            (case reg (tc_name (calls ! i)) of
               None \<Rightarrow>
                 \<lparr>role = Tool_result,
                  content = ''Unknown tool: \"'' @ tc_name (calls ! i) @ ''\". Available tools: ''
                            @ join '', '' (map td_name (availableTools config)),
                  toolCalls = None, toolCallId = Some (tc_id (calls ! i))\<rparr>
             | Some entry \<Rightarrow>
                 (case hst (yielded st @ expected_actions reg (take i calls)
                            @ [expected_action entry (calls ! i)]) of
                    None \<Rightarrow>
                      \<lparr>role = Tool_result,
                       content = ''Tool execution was skipped or denied by the user.'',
                       toolCalls = None, toolCallId = Some (tc_id (calls ! i))\<rparr>
                  | Some toolResult \<Rightarrow>
                      \<lparr>role = Tool_result, content = tr_content toolResult,
                       toolCalls = None, toolCallId = Some (tr_toolCallId toolResult)\<rparr>)))
     \<and> prefix (messages st
                @ [\<lparr>role = Assistant, content = resp_content response,
                    toolCalls = Some calls, toolCallId = None\<rparr>]
                @ rs) (messages r)
     \<and> prefix (requests st @ [request]) (requests r)
     \<and> (length (requests st) + 1 < length (requests r) \<longrightarrow>
          req_messages (requests r ! (length (requests st) + 1))
            = messages st
              @ [\<lparr>role = Assistant, content = resp_content response,
                  toolCalls = Some calls, toolCallId = None\<rparr>]
              @ rs)
     \<and> (1 < turnsRemaining
          \<and> totalInputTokens st + totalOutputTokens st + reported_by (Inr response)
              < maxTokenBudget config - 100
        \<longrightarrow> length (requests st) + 1 < length (requests r))"
proof -
  let ?rs = "expected_results config reg hst (yielded st) calls"
  let ?batch = "messages st @ [assistant_message response] @ ?rs"
  have req: "request = make_request config st"
    using assms(3) by (simp add: make_request_def)
  have p: "prov (requests st @ [make_request config st]) = Inr response"
    using assms(4) req by simp
  note run = agentLoop_batch_run[where t = turnsRemaining and st = st and config = config
      and prov = prov and response = response and calls = calls and reg = reg and hst = hst
      and batch = ?batch and r = r, OF assms(1,2) p assms(5,6) refl assms(7)]
  have am: "assistant_message response
      = \<lparr>role = Assistant, content = resp_content response,
         toolCalls = Some calls, toolCallId = None\<rparr>"
    using assms(5) by (simp add: assistant_message_def)
  have c1: "length ?rs = length calls"
    by simp
  have c2: "\<forall>i<length calls.
          ?rs ! i =
            (case reg (tc_name (calls ! i)) of
               None \<Rightarrow>
                 \<lparr>role = Tool_result,
                  content = ''Unknown tool: \"'' @ tc_name (calls ! i) @ ''\". Available tools: ''
                            @ join '', '' (map td_name (availableTools config)),
                  toolCalls = None, toolCallId = Some (tc_id (calls ! i))\<rparr>
             | Some entry \<Rightarrow>
                 (case hst (yielded st @ expected_actions reg (take i calls)
                            @ [expected_action entry (calls ! i)]) of
                    None \<Rightarrow>
                      \<lparr>role = Tool_result,
                       content = ''Tool execution was skipped or denied by the user.'',
                       toolCalls = None, toolCallId = Some (tc_id (calls ! i))\<rparr>
                  | Some toolResult \<Rightarrow>
                      \<lparr>role = Tool_result, content = tr_content toolResult,
                       toolCalls = None, toolCallId = Some (tr_toolCallId toolResult)\<rparr>))"
  proof (intro allI impI)
    fix i
    assume "i < length calls"
    then have "?rs ! i
        = expected_result config reg hst (yielded st @ expected_actions reg (take i calls))
            (calls ! i)"
      by (simp add: expected_results_def)
    then show "?rs ! i =
            (case reg (tc_name (calls ! i)) of
               None \<Rightarrow>
                 \<lparr>role = Tool_result,
                  content = ''Unknown tool: \"'' @ tc_name (calls ! i) @ ''\". Available tools: ''
                            @ join '', '' (map td_name (availableTools config)),
                  toolCalls = None, toolCallId = Some (tc_id (calls ! i))\<rparr>
             | Some entry \<Rightarrow>
                 (case hst (yielded st @ expected_actions reg (take i calls)
                            @ [expected_action entry (calls ! i)]) of
                    None \<Rightarrow>
                      \<lparr>role = Tool_result,
                       content = ''Tool execution was skipped or denied by the user.'',
                       toolCalls = None, toolCallId = Some (tc_id (calls ! i))\<rparr>
                  | Some toolResult \<Rightarrow>
                      \<lparr>role = Tool_result, content = tr_content toolResult,
                       toolCalls = None, toolCallId = Some (tr_toolCallId toolResult)\<rparr>))"
      by (simp add: expected_result_def split: option.splits)
  qed
  have c3: "prefix (messages st
                @ [\<lparr>role = Assistant, content = resp_content response,
                    toolCalls = Some calls, toolCallId = None\<rparr>]
                @ ?rs) (messages r)"
    using run(1) unfolding am .
  have c4: "prefix (requests st @ [request]) (requests r)"
    using run(3) unfolding req .
  have c5: "length (requests st) + 1 < length (requests r) \<longrightarrow>
          req_messages (requests r ! (length (requests st) + 1))
            = messages st
              @ [\<lparr>role = Assistant, content = resp_content response,
                  toolCalls = Some calls, toolCallId = None\<rparr>]
              @ ?rs"
    using run(4) unfolding am by simp
  note c6 = run(5)
  from c1 c2 c3 c4 c5 c6 show ?thesis
    by blast
qed

text \<open>
  A host that denies everything, and a response that asks for the dead-code tool, for
  an unknown tool and for the commit tool: the second request carries the three
  results in the order of the calls.
\<close>

theorem tool_results_one_per_call_in_order_witness:
  "yielded (runAgentLoop example_registry
              (calls_then_done [dead_code_call, frobnicate_call, commit_call])
              denying_host tools_config [] ''hi'')
     = [Act_tool_call Dead_code ''c1'' [],
        Act_confirmation_required Commit ''c2'' [] ''Auto-Commit: Propose a commit.'',
        Act_response ''done'' 0 0]
   \<and> length (requests (runAgentLoop example_registry
                          (calls_then_done [dead_code_call, frobnicate_call, commit_call])
                          denying_host tools_config [] ''hi''))
     = 2
   \<and> messages (runAgentLoop example_registry
                 (calls_then_done [dead_code_call, frobnicate_call, commit_call])
                 denying_host tools_config [] ''hi'')
     = initial_messages tools_config [] ''hi''
       @ [\<lparr>role = Assistant, content = [],
           toolCalls = Some [dead_code_call, frobnicate_call, commit_call], toolCallId = None\<rparr>,
          \<lparr>role = Tool_result, content = ''Tool execution was skipped or denied by the user.'',
           toolCalls = None, toolCallId = Some ''c1''\<rparr>,
          \<lparr>role = Tool_result,
           content = ''Unknown tool: \"frobnicate\". Available tools: dead-code, commit'',
           toolCalls = None, toolCallId = Some ''c7''\<rparr>,
          \<lparr>role = Tool_result, content = ''Tool execution was skipped or denied by the user.'',
           toolCalls = None, toolCallId = Some ''c2''\<rparr>]
   \<and> req_messages
        (requests (runAgentLoop example_registry
                     (calls_then_done [dead_code_call, frobnicate_call, commit_call])
                     denying_host tools_config [] ''hi'') ! 1)
     = initial_messages tools_config [] ''hi''
       @ [\<lparr>role = Assistant, content = [],
           toolCalls = Some [dead_code_call, frobnicate_call, commit_call], toolCallId = None\<rparr>,
          \<lparr>role = Tool_result, content = ''Tool execution was skipped or denied by the user.'',
           toolCalls = None, toolCallId = Some ''c1''\<rparr>,
          \<lparr>role = Tool_result,
           content = ''Unknown tool: \"frobnicate\". Available tools: dead-code, commit'',
           toolCalls = None, toolCallId = Some ''c7''\<rparr>,
          \<lparr>role = Tool_result, content = ''Tool execution was skipped or denied by the user.'',
           toolCalls = None, toolCallId = Some ''c2''\<rparr>]"
proof -
  let ?calls = "[dead_code_call, frobnicate_call, commit_call]"
  let ?prov = "calls_then_done ?calls"
  let ?run = "runAgentLoop example_registry ?prov denying_host tools_config [] ''hi''"
  let ?st = "start_state tools_config"
  let ?request = "\<lparr>req_role = ''chat'', req_messages = messages ?st,
                    req_tools = (if availableTools tools_config = [] then None
                                 else Some (availableTools tools_config))\<rparr>"
  let ?response = "\<lparr>resp_content = [], resp_usage = None, resp_toolCalls = Some ?calls\<rparr>"
  have run: "?run = agentLoop tools_config example_registry ?prov denying_host 3 ?st"
    by (simp add: runAgentLoop_def start_state_def tools_config_def)
  have h2: "totalInputTokens ?st + totalOutputTokens ?st < maxTokenBudget tools_config - 100"
    by (simp add: start_state_def tools_config_def)
  have h4: "?prov (requests ?st @ [?request]) = Inr ?response"
    by (simp add: calls_then_done_def start_state_def)
  have h5: "resp_toolCalls ?response = Some ?calls"
    by simp
  have y: "yielded ?run
     = [Act_tool_call Dead_code ''c1'' [],
        Act_confirmation_required Commit ''c2'' [] ''Auto-Commit: Propose a commit.'',
        Act_response ''done'' 0 0]"
    by (simp add: runAgentLoop_def agentLoop.simps tools_config_def calls_then_done_def
      MIN_TOKEN_BUDGET_THRESHOLD_def no_tool_calls_def frobnicate_call_def dead_code_call_def
      commit_call_def example_registry_def denying_host_def action_for_def
      yield_def push_message_def track_usage_def log_request_def make_request_def Let_def)
  have n: "length (requests ?run) = 2"
    by (simp add: runAgentLoop_def agentLoop.simps tools_config_def calls_then_done_def
      MIN_TOKEN_BUDGET_THRESHOLD_def no_tool_calls_def frobnicate_call_def dead_code_call_def
      commit_call_def example_registry_def denying_host_def action_for_def
      yield_def push_message_def track_usage_def log_request_def make_request_def Let_def)
  have m: "messages ?run
     = initial_messages tools_config [] ''hi''
       @ [\<lparr>role = Assistant, content = [], toolCalls = Some ?calls, toolCallId = None\<rparr>,
          \<lparr>role = Tool_result, content = ''Tool execution was skipped or denied by the user.'',
           toolCalls = None, toolCallId = Some ''c1''\<rparr>,
          \<lparr>role = Tool_result,
           content = ''Unknown tool: \"frobnicate\". Available tools: dead-code, commit'',
           toolCalls = None, toolCallId = Some ''c7''\<rparr>,
          \<lparr>role = Tool_result, content = ''Tool execution was skipped or denied by the user.'',
           toolCalls = None, toolCallId = Some ''c2''\<rparr>]"
    by (simp add: runAgentLoop_def agentLoop.simps tools_config_def calls_then_done_def
      MIN_TOKEN_BUDGET_THRESHOLD_def no_tool_calls_def frobnicate_call_def dead_code_call_def
      commit_call_def example_registry_def denying_host_def action_for_def
      unknown_tool_message_def skipped_message_def assistant_message_def
      yield_def push_message_def track_usage_def log_request_def make_request_def Let_def)
  from tool_results_one_per_call_in_order[where turnsRemaining = 3 and st = ?st
      and config = tools_config and request = ?request and prov = ?prov
      and response = ?response and calls = ?calls and reg = example_registry
      and hst = denying_host and r = ?run, OF zero_less_numeral h2 refl h4 h5 list.distinct(2) run]
  obtain rs where len': "length rs = length ?calls"
    and each': "\<forall>i<length ?calls. rs ! i =
            (case example_registry (tc_name (?calls ! i)) of
               None \<Rightarrow>
                 \<lparr>role = Tool_result,
                  content = ''Unknown tool: \"'' @ tc_name (?calls ! i) @ ''\". Available tools: ''
                            @ join '', '' (map td_name (availableTools tools_config)),
                  toolCalls = None, toolCallId = Some (tc_id (?calls ! i))\<rparr>
             | Some entry \<Rightarrow>
                 (case denying_host (yielded ?st @ expected_actions example_registry (take i ?calls)
                            @ [expected_action entry (?calls ! i)]) of
                    None \<Rightarrow>
                      \<lparr>role = Tool_result,
                       content = ''Tool execution was skipped or denied by the user.'',
                       toolCalls = None, toolCallId = Some (tc_id (?calls ! i))\<rparr>
                  | Some toolResult \<Rightarrow>
                      \<lparr>role = Tool_result, content = tr_content toolResult,
                       toolCalls = None, toolCallId = Some (tr_toolCallId toolResult)\<rparr>))"
    and next_request: "length (requests ?st) + 1 < length (requests ?run) \<longrightarrow>
          req_messages (requests ?run ! (length (requests ?st) + 1))
            = messages ?st
              @ [\<lparr>role = Assistant, content = resp_content ?response,
                  toolCalls = Some ?calls, toolCallId = None\<rparr>]
              @ rs"
    by blast
  have len: "length rs = 3"
    using len' by simp
  have each: "i < 3 \<Longrightarrow> rs ! i =
            (case example_registry (tc_name (?calls ! i)) of
               None \<Rightarrow>
                 \<lparr>role = Tool_result,
                  content = ''Unknown tool: \"'' @ tc_name (?calls ! i) @ ''\". Available tools: ''
                            @ join '', '' (map td_name (availableTools tools_config)),
                  toolCalls = None, toolCallId = Some (tc_id (?calls ! i))\<rparr>
             | Some entry \<Rightarrow>
                 (case denying_host (yielded ?st @ expected_actions example_registry (take i ?calls)
                            @ [expected_action entry (?calls ! i)]) of
                    None \<Rightarrow>
                      \<lparr>role = Tool_result,
                       content = ''Tool execution was skipped or denied by the user.'',
                       toolCalls = None, toolCallId = Some (tc_id (?calls ! i))\<rparr>
                  | Some toolResult \<Rightarrow>
                      \<lparr>role = Tool_result, content = tr_content toolResult,
                       toolCalls = None, toolCallId = Some (tr_toolCallId toolResult)\<rparr>))" for i
    using each'[rule_format, of i] by simp
  have r0: "rs ! 0 = \<lparr>role = Tool_result,
           content = ''Tool execution was skipped or denied by the user.'',
           toolCalls = None, toolCallId = Some ''c1''\<rparr>"
    using each[of 0]
    by (simp add: example_registry_def dead_code_call_def denying_host_def)
  have r1: "rs ! 1 = \<lparr>role = Tool_result,
           content = ''Unknown tool: \"frobnicate\". Available tools: dead-code, commit'',
           toolCalls = None, toolCallId = Some ''c7''\<rparr>"
    using each[of 1]
    by (simp add: example_registry_def frobnicate_call_def tools_config_def)
  have r2: "rs ! 2 = \<lparr>role = Tool_result,
           content = ''Tool execution was skipped or denied by the user.'',
           toolCalls = None, toolCallId = Some ''c2''\<rparr>"
    using each[of 2]
    by (simp add: example_registry_def commit_call_def denying_host_def)
  have "rs = [rs ! 0, rs ! 1, rs ! 2]"
    using len by (auto simp: list_eq_iff_nth_eq nth_Cons' less_Suc_eq numeral_3_eq_3 numeral_2_eq_2)
  then have rs: "rs = [\<lparr>role = Tool_result,
           content = ''Tool execution was skipped or denied by the user.'',
           toolCalls = None, toolCallId = Some ''c1''\<rparr>,
          \<lparr>role = Tool_result,
           content = ''Unknown tool: \"frobnicate\". Available tools: dead-code, commit'',
           toolCalls = None, toolCallId = Some ''c7''\<rparr>,
          \<lparr>role = Tool_result,
           content = ''Tool execution was skipped or denied by the user.'',
           toolCalls = None, toolCallId = Some ''c2''\<rparr>]"
    unfolding r0 r1 r2 .
  have "req_messages (requests ?run ! 1)
      = messages ?st
        @ [\<lparr>role = Assistant, content = [], toolCalls = Some ?calls, toolCallId = None\<rparr>] @ rs"
    using next_request n by (simp add: start_state_def)
  then have "req_messages (requests ?run ! 1)
     = initial_messages tools_config [] ''hi''
       @ [\<lparr>role = Assistant, content = [], toolCalls = Some ?calls, toolCallId = None\<rparr>,
          \<lparr>role = Tool_result, content = ''Tool execution was skipped or denied by the user.'',
           toolCalls = None, toolCallId = Some ''c1''\<rparr>,
          \<lparr>role = Tool_result,
           content = ''Unknown tool: \"frobnicate\". Available tools: dead-code, commit'',
           toolCalls = None, toolCallId = Some ''c7''\<rparr>,
          \<lparr>role = Tool_result, content = ''Tool execution was skipped or denied by the user.'',
           toolCalls = None, toolCallId = Some ''c2''\<rparr>]"
    unfolding rs by (simp add: start_state_def)
  with y n m show ?thesis
    by simp
qed

subsection \<open>Correlation ids\<close>

text \<open>
  C6. The loop copies the id of the host's result into the \<open>tool_result\<close> message,
  where the two other branches take the id of the pending call. A host answering the
  call \<open>c1\<close> with a result labelled \<open>zzz\<close> leaves a \<open>tool_result\<close> whose id no
  assistant message carries.
\<close>

theorem mismatched_result_id_breaks_correlation:
  "map (\<lambda>m. (role m, toolCallId m, map_option (map tc_id) (toolCalls m)))
     (drop 2 (messages (runAgentLoop example_registry (calls_then_done [dead_code_call])
                 mismatching_host example_config [] ''hi'')))
     = [(Assistant, None, Some [''c1'']), (Tool_result, Some ''zzz'', None)]
   \<and> \<not> correlated_from []
         (messages (runAgentLoop example_registry (calls_then_done [dead_code_call])
                 mismatching_host example_config [] ''hi''))"
  by (simp add: runAgentLoop_def agentLoop.simps example_config_def calls_then_done_def
      MIN_TOKEN_BUDGET_THRESHOLD_def no_tool_calls_def dead_code_call_def example_registry_def
      yield_def push_message_def track_usage_def log_request_def make_request_def
      mismatching_host_def host_result_message_def action_for_def
      assistant_message_def initial_messages_def Let_def)

text \<open>
  With a host that answers every action with the id of that action's call, the loop
  keeps the invariant of a correlated message sequence.
\<close>

lemma correlated_from_append:
  "correlated_from seen (ms @ ms')
     \<longleftrightarrow> correlated_from seen ms \<and> correlated_from (seen @ call_ids ms) ms'"
proof (induction ms arbitrary: seen)
  case Nil
  then show ?case by (simp add: call_ids_def)
next
  case (Cons m ms)
  show ?case
    by (cases "role m") (auto simp: Cons.IH call_ids_def split: option.splits)
qed

lemma correlated_from_results:
  "\<forall>m \<in> set rs. role m = Tool_result \<and> (\<exists>i \<in> set seen. toolCallId m = Some i)
   \<Longrightarrow> correlated_from seen rs"
  by (induction rs) auto

lemma action_for_callId: "action_callId (action_for entry c) = Some (tc_id c)"
  by (simp add: action_for_def action_callId_def)

lemma processToolCalls_echo:
  assumes "echoes_call_id hst"
  shows "\<exists>rs. messages (processToolCalls config reg hst calls st) = messages st @ rs
      \<and> (\<forall>m \<in> set rs. role m = Tool_result \<and> (\<exists>i \<in> set (map tc_id calls). toolCallId m = Some i))"
proof (induction calls arbitrary: st)
  case Nil
  then show ?case by simp
next
  case (Cons c cs)
  have step: "\<exists>rs. messages (processToolCalls config reg hst cs (push_message m s)) = messages s @ rs
      \<and> (\<forall>m \<in> set rs. role m = Tool_result
            \<and> (\<exists>i \<in> set (map tc_id (c # cs)). toolCallId m = Some i))"
    if "role m = Tool_result" "toolCallId m = Some (tc_id c)" for m s
  proof -
    from Cons[of "push_message m s"] obtain rs where
      rs: "messages (processToolCalls config reg hst cs (push_message m s))
          = messages (push_message m s) @ rs"
        "\<forall>m \<in> set rs. role m = Tool_result \<and> (\<exists>i \<in> set (map tc_id cs). toolCallId m = Some i)"
      by blast
    have "messages (processToolCalls config reg hst cs (push_message m s)) = messages s @ (m # rs)"
      using rs(1) by simp
    moreover have "\<forall>x \<in> set (m # rs). role x = Tool_result
            \<and> (\<exists>i \<in> set (map tc_id (c # cs)). toolCallId x = Some i)"
      using rs(2) that by auto
    ultimately show ?thesis by blast
  qed
  show ?case
  proof (cases "reg (tc_name c)")
    case None
    with step[of "unknown_tool_message config c" st] show ?thesis
      by (simp add: unknown_tool_message_def)
  next
    case (Some entry)
    let ?st1 = "yield (action_for entry c) st"
    show ?thesis
    proof (cases "hst (yielded ?st1)")
      case None
      with Some step[of "skipped_message c" ?st1] show ?thesis
        by (simp add: skipped_message_def Let_def)
    next
      case (Some r)
      then have "hst (yielded st @ [action_for entry c]) = Some r"
        by simp
      with assms have "tr_toolCallId r = tc_id c"
        unfolding echoes_call_id_def using action_for_callId[of entry c] by fastforce
      with Some \<open>reg (tc_name c) = Some entry\<close> step[of "host_result_message r" ?st1]
      show ?thesis
        by (simp add: host_result_message_def Let_def)
    qed
  qed
qed

lemma agentLoop_keeps_correlation:
  assumes "echoes_call_id hst" and "correlated_from [] (messages st)"
  shows "correlated_from [] (messages (agentLoop config reg prov hst t st))"
  using assms
proof (induction config reg prov hst t st rule: agentLoop_induct')
  case (step config reg prov hst t st)
  show ?case
  proof (cases rule: agentLoop_cases[where t = t and config = config and st = st and prov = prov and reg = reg and hst = hst])
    case limit
    with step.prems show ?thesis by simp
  next
    case budget
    with step.prems show ?thesis by simp
  next
    case (throw err)
    with step.prems show ?thesis by simp
  next
    case (final response)
    with step.prems show ?thesis by simp
  next
    case (tools response calls)
    let ?st0 = "push_message (assistant_message response) (track_usage response (log_request config st))"
    let ?st' = "processToolCalls config reg hst calls ?st0"
    from processToolCalls_echo[OF step.prems(1), of config reg calls ?st0] obtain rs where
      rs: "messages ?st' = messages ?st0 @ rs"
        "\<forall>m \<in> set rs. role m = Tool_result \<and> (\<exists>i \<in> set (map tc_id calls). toolCallId m = Some i)"
      by auto
    have m: "messages ?st' = (messages st @ [assistant_message response]) @ rs"
      using rs(1) by simp
    have "correlated_from (call_ids (messages st) @ map tc_id calls) rs"
      by (rule correlated_from_results) (use rs(2) in auto)
    then have "correlated_from [] ((messages st @ [assistant_message response]) @ rs)"
      using step.prems(2) tools(4)
      by (simp add: correlated_from_append assistant_message_def call_ids_def)
    then have "correlated_from [] (messages ?st')"
      unfolding m .
    then show ?thesis
      unfolding tools(6) using step.IH[OF tools(1-5) step.prems(1)] by blast
  qed
qed

subsection \<open>The initial message sequence\<close>

lemma join_Cons: "xs \<noteq> [] \<Longrightarrow> join sep (x # xs) = x @ sep @ join sep xs"
  by (cases xs) simp_all

lemma join_map_append:
  "ys \<noteq> [] \<Longrightarrow> join sep (map f ts @ ys) = concat (map (\<lambda>t. f t @ sep) ts) @ join sep ys"
  by (induction ts) (simp_all add: join_Cons)

lemma buildSystemPrompt_parts:
  "buildSystemPrompt config =
     (if systemPrompt config \<noteq> [] then systemPrompt config @ [CHR 10, CHR 10]
      else BASE_SYSTEM_PROMPT @ [CHR 10])
     @ tool_descriptions config @ join [CHR 10] constraint_lines"
proof -
  have c: "constraint_lines \<noteq> []" by (simp add: constraint_lines_def)
  show ?thesis
  proof (cases "availableTools config = []")
    case True
    then show ?thesis
      using c by (simp add: buildSystemPrompt_def tool_descriptions_def join_Cons)
  next
    case False
    have "join [CHR 10] (map tool_line (availableTools config) @ [] # constraint_lines)
        = concat (map (\<lambda>t. tool_line t @ [CHR 10]) (availableTools config))
          @ join [CHR 10] ([] # constraint_lines)"
      by (rule join_map_append) simp
    with False c show ?thesis
      by (simp add: buildSystemPrompt_def tool_descriptions_def join_Cons)
  qed
qed

text \<open>
  C7, as the code has it. The message sequence starts with one system message, goes on
  with the history in order and ends with the new user message. The system content
  begins with the custom prompt and an empty line when \<open>systemPrompt\<close> is non-empty,
  and with the built-in persona otherwise; in both cases the tool descriptions (when
  there are tools) and the fixed constraints follow. The first request, when one is
  sent, carries exactly this sequence.
\<close>

theorem initial_message_sequence:
  "initial_messages config history userMessage
     = \<lparr>role = System,
        content = (if systemPrompt config \<noteq> [] then systemPrompt config @ [CHR 10, CHR 10]
                   else BASE_SYSTEM_PROMPT @ [CHR 10])
                  @ tool_descriptions config @ join [CHR 10] constraint_lines,
        toolCalls = None, toolCallId = None\<rparr>
       # history
       @ [\<lparr>role = User, content = userMessage, toolCalls = None, toolCallId = None\<rparr>]
   \<and> prefix (initial_messages config history userMessage)
        (messages (runAgentLoop reg prov hst config history userMessage))
   \<and> (requests (runAgentLoop reg prov hst config history userMessage) \<noteq> [] \<longrightarrow>
        req_messages (hd (requests (runAgentLoop reg prov hst config history userMessage)))
          = initial_messages config history userMessage)"
proof -
  let ?st = "\<lparr>messages = initial_messages config history userMessage,
        totalInputTokens = 0, totalOutputTokens = 0, requests = [], yielded = [],
        uncaught = None\<rparr>"
  have a: "prefix (initial_messages config history userMessage)
        (messages (runAgentLoop reg prov hst config history userMessage))"
    using agentLoop_messages_prefix[where st = ?st and config = config and reg = reg
        and prov = prov and hst = hst and t = "maxTurns config"]
    by (simp add: runAgentLoop_def)
  have b: "requests (runAgentLoop reg prov hst config history userMessage) \<noteq> [] \<longrightarrow>
        req_messages (hd (requests (runAgentLoop reg prov hst config history userMessage)))
          = initial_messages config history userMessage"
    using agentLoop_first_request[where st = ?st and config = config and reg = reg
        and prov = prov and hst = hst and t = "maxTurns config"]
    by (auto simp: runAgentLoop_def prefix_def make_request_def)
  show ?thesis
    using a b by (simp add: initial_messages_def buildSystemPrompt_parts)
qed

theorem initial_message_sequence_witness:
  "requests (runAgentLoop example_registry (calls_then_done []) echo_host custom_prompt_config [] ''hi'') \<noteq> []
   \<and> req_messages (hd (requests (runAgentLoop example_registry (calls_then_done []) echo_host
          custom_prompt_config [] ''hi'')))
       = [\<lparr>role = System,
           content = ''Be brief.'' @ [CHR 10, CHR 10] @ join [CHR 10] constraint_lines,
           toolCalls = None, toolCallId = None\<rparr>,
          \<lparr>role = User, content = ''hi'', toolCalls = None, toolCallId = None\<rparr>]"
proof -
  have h: "requests (runAgentLoop example_registry (calls_then_done []) echo_host
      custom_prompt_config [] ''hi'') \<noteq> []"
    by (simp add: runAgentLoop_def agentLoop.simps custom_prompt_config_def calls_then_done_def
        MIN_TOKEN_BUDGET_THRESHOLD_def no_tool_calls_def yield_def track_usage_def log_request_def)
  from initial_message_sequence[of custom_prompt_config "[]" "''hi''" example_registry
      "calls_then_done []" echo_host] h
  show ?thesis
    by (simp add: custom_prompt_config_def tool_descriptions_def)
qed

text \<open>
  The claim as stated (the content is the custom prompt when there is one) fails: the
  constraints are appended to a custom prompt too.
\<close>

theorem custom_prompt_counterexample:
  "systemPrompt custom_prompt_config = ''Be brief.''
   \<and> content (hd (initial_messages custom_prompt_config [] ''hi''))
       = ''Be brief.'' @ [CHR 10, CHR 10] @ join [CHR 10] constraint_lines
   \<and> content (hd (initial_messages custom_prompt_config [] ''hi'')) \<noteq> systemPrompt custom_prompt_config"
  by (simp add: initial_messages_def buildSystemPrompt_def custom_prompt_config_def
      constraint_lines_def)

section \<open>Properties of the analysis tools\<close>

subsection \<open>Dead-code tool: model review\<close>

lemma split_nonempty: "split c s \<noteq> []"
  by (induction s) (auto split: list.splits)

lemma length_split: "length (split c s) = Suc (length (filter (\<lambda>x. x = c) s))"
  by (induction s) (auto split: list.splits simp: split_nonempty)

lemma startsWith_DISMISS_parts:
  assumes "startsWith line ''DISMISS|''"
  shows "2 \<le> length (split (CHR ''|'') line)"
proof -
  from assms have e: "take (length ''DISMISS|'') line = ''DISMISS|''"
    unfolding startsWith_def .
  have "CHR ''|'' \<in> set ''DISMISS|''"
    by simp
  then have "CHR ''|'' \<in> set (take (length ''DISMISS|'') line)"
    unfolding e .
  then have "CHR ''|'' \<in> set line"
    by (rule in_set_takeD)
  then have "filter (\<lambda>x. x = CHR ''|'') line \<noteq> []"
    by (simp add: filter_empty_conv)
  then show ?thesis
    by (cases "filter (\<lambda>x. x = CHR ''|'') line") (simp_all add: length_split)
qed

lemma collect_dismissals_iff:
  "k \<in> collect_dismissals lines acc \<longleftrightarrow>
     k \<in> acc \<or> (\<exists>line \<in> set lines. startsWith line ''DISMISS|'' \<and> trim (split (CHR ''|'') line ! 1) = k)"
proof (induction lines arbitrary: acc)
  case Nil
  then show ?case by simp
next
  case (Cons line lines)
  show ?case
  proof (cases "startsWith line ''DISMISS|''")
    case True
    with startsWith_DISMISS_parts[OF True] Cons[of "insert (trim (split (CHR ''|'') line ! 1)) acc"]
    show ?thesis
      by (auto simp: Let_def)
  next
    case False
    with Cons[of acc] show ?thesis by auto
  qed
qed

lemma downgrade_length [simp]: "length (downgrade ds fs) = length fs"
  by (induction fs) simp_all

lemma downgrade_nth:
  "i < length fs \<Longrightarrow> downgrade ds fs ! i =
     (if finding_key (fs ! i) \<in> ds
      then (fs ! i)\<lparr>severity := Sev_hint,
                   description := description (fs ! i)
                     @ '' (Model suggests this may be a false positive.)''\<rparr>
      else fs ! i)"
  by (induction fs arbitrary: i) (auto simp: nth_Cons split: nat.splits)

text \<open>
  C8. The review phase keeps the list of findings position by position. A finding named
  in a DISMISS line of the model's answer (its \<open>file:line\<close> key is the trimmed second
  field of the line) gets the severity \<open>hint\<close> and the note appended to its
  description; every other field of it, and every other finding, is left as it was.
  When the request fails, or no provider is configured, the findings are untouched.
\<close>

theorem model_review_only_annotates:
  "length (review_phase modelProvider findings) = length findings
   \<and> (\<forall>i < length findings.
        review_phase modelProvider findings ! i =
          (if \<exists>response. modelProvider = Some (Inr response)
                \<and> named_in_dismiss_line (resp_content response) (findings ! i)
           then (findings ! i)\<lparr>severity := Sev_hint,
                   description := description (findings ! i)
                     @ '' (Model suggests this may be a false positive.)''\<rparr>
           else findings ! i))
   \<and> review_phase (Some (Inl err)) findings = findings
   \<and> review_phase None findings = findings"
proof -
  have a: "review_phase (Some (Inl e)) findings = findings" for e
    by (simp add: review_phase_def modelReview_def)
  have b: "review_phase None findings = findings"
    by (simp add: review_phase_def)
  have c: "review_phase (Some (Inr response)) findings
      = downgrade (collect_dismissals (split (CHR 10) (resp_content response)) {}) findings"
    for response
    by (cases findings) (simp_all add: review_phase_def modelReview_def)
  have d: "finding_key f \<in> collect_dismissals (split (CHR 10) (resp_content response)) {}
      \<longleftrightarrow> named_in_dismiss_line (resp_content response) f" for response and f :: "'a FindingBody_scheme"
    by (simp add: collect_dismissals_iff named_in_dismiss_line_def)
  show ?thesis
  proof (cases modelProvider)
    case None
    then show ?thesis using a b by simp
  next
    case (Some outcome)
    show ?thesis
    proof (cases outcome)
      case (Inl e)
      with Some a b show ?thesis by simp
    next
      case (Inr response)
      with Some a b show ?thesis
        by (simp add: c downgrade_nth d)
    qed
  qed
qed

lemma String_7: "String 7 = ''7''"
  by (simp add: String_def digit_char_def string_of_nat.simps)

theorem model_review_only_annotates_witness:
  "(1::nat) < length review_findings
   \<and> named_in_dismiss_line (resp_content review_answer) (review_findings ! 1)
   \<and> review_phase (Some (Inr review_answer)) review_findings ! 1
       = \<lparr>title = ''Unused export: b'',
          description = ''d2 (Model suggests this may be a false positive.)'',
          location = line_location ''b.ts'' 7 7,
          severity = Sev_hint, suggestedFix = None, metadata = None\<rparr>
   \<and> \<not> named_in_dismiss_line (resp_content review_answer) (review_findings ! 0)
   \<and> review_phase (Some (Inr review_answer)) review_findings ! 0 = review_findings ! 0"
proof -
  have l: "(1::nat) < length review_findings" "(0::nat) < length review_findings"
    by (simp_all add: review_findings_def)
  have n1: "named_in_dismiss_line (resp_content review_answer) (review_findings ! 1)"
    by (simp add: named_in_dismiss_line_def review_answer_def review_findings_def
        startsWith_def finding_key_def line_location_def String_7 trim_def is_space_def)
  have n0: "\<not> named_in_dismiss_line (resp_content review_answer) (review_findings ! 0)"
    by (simp add: named_in_dismiss_line_def review_answer_def review_findings_def
        startsWith_def finding_key_def line_location_def String_3 trim_def is_space_def)
  from model_review_only_annotates[of "Some (Inr review_answer)" review_findings]
  have "\<forall>i < length review_findings.
        review_phase (Some (Inr review_answer)) review_findings ! i =
          (if named_in_dismiss_line (resp_content review_answer) (review_findings ! i)
           then (review_findings ! i)\<lparr>severity := Sev_hint,
                   description := description (review_findings ! i)
                     @ '' (Model suggests this may be a false positive.)''\<rparr>
           else review_findings ! i)"
    by simp
  with l n1 n0 have "review_phase (Some (Inr review_answer)) review_findings ! 1
      = (review_findings ! 1)\<lparr>severity := Sev_hint,
                   description := description (review_findings ! 1)
                     @ '' (Model suggests this may be a false positive.)''\<rparr>"
    and "review_phase (Some (Inr review_answer)) review_findings ! 0 = review_findings ! 0"
    by auto
  with l n1 n0 show ?thesis
    by (simp add: review_findings_def)
qed

subsection \<open>Dead-code tool: static pass\<close>

lemma word1_name: "word1 s = Some w \<Longrightarrow> is_word_name w"
  by (auto simp: word1_def is_word_name_def list_all_iff split: if_splits dest: set_takeWhileD)

lemma keyword_name_name: "keyword_name kw s = Some w \<Longrightarrow> is_word_name w"
  by (auto simp: keyword_name_def Option.bind_eq_Some_conv dest: word1_name)

lemma optional_from: "optional m k s = Some w \<Longrightarrow> \<exists>t. k t = Some w"
  by (auto simp: optional_def Option.bind_eq_Some_conv split: option.splits)

lemma first_of_from: "first_of ks s = Some w \<Longrightarrow> \<exists>k \<in> set ks. k s = Some w"
  by (induction ks) (auto split: option.splits)

lemma after_export_from: "after_export k s = Some w \<Longrightarrow> \<exists>t. k t = Some w"
  by (auto simp: after_export_def Option.bind_eq_Some_conv)

lemma search_from: "search k s = Some w \<Longrightarrow> \<exists>t. k t = Some w"
  by (induction s) (auto split: option.splits)

lemma export_of_line_name:
  assumes "export_of_line line n = Some e"
  shows "ex_kind e = Kind_default \<or> is_word_name (ex_name e)"
proof -
  have f: "search (after_export (optional m (keyword_name kw))) line = Some w \<Longrightarrow> is_word_name w"
    for m kw w
    by (blast dest: search_from after_export_from optional_from keyword_name_name)
  have g: "search (after_export (keyword_name kw)) line = Some w \<Longrightarrow> is_word_name w"
    for kw w
    by (blast dest: search_from after_export_from keyword_name_name)
  have h: "search (after_export (first_of [keyword_name ''const'', keyword_name ''let'',
              keyword_name ''var''])) line = Some w \<Longrightarrow> is_word_name w" for w
  proof -
    assume "search (after_export (first_of [keyword_name ''const'', keyword_name ''let'',
              keyword_name ''var''])) line = Some w"
    then obtain t where "first_of [keyword_name ''const'', keyword_name ''let'',
              keyword_name ''var''] t = Some w"
      by (blast dest: search_from after_export_from)
    then obtain k where "k \<in> set [keyword_name ''const'', keyword_name ''let'', keyword_name ''var'']"
        "k t = Some w"
      by (blast dest: first_of_from)
    then show "is_word_name w"
      by (auto dest: keyword_name_name)
  qed
  from assms show ?thesis
    unfolding export_of_line_def
    by (auto split: option.splits dest: f g h)
qed

lemma python_export_of_line_name:
  assumes "python_export_of_line line n = Some e"
  shows "ex_kind e = Kind_default \<or> is_word_name (ex_name e)"
proof -
  have d: "python_def line = Some w \<Longrightarrow> is_word_name w" for w
    by (auto simp: python_def_def Option.bind_eq_Some_conv split: if_splits dest: word1_name)
  have a: "python_assignment line = Some w \<Longrightarrow> is_word_name w" for w
    by (auto simp: python_assignment_def Option.bind_eq_Some_conv split: if_splits dest: word1_name)
  from assms show ?thesis
    unfolding python_export_of_line_def Let_def
    by (auto split: if_splits dest: d a keyword_name_name)
qed

lemma extract_lines_from:
  "e \<in> set (extract_lines of_line lines n acc) \<Longrightarrow>
     e \<in> set acc \<or> (\<exists>line k. of_line line k = Some e)"
proof (induction lines arbitrary: n acc)
  case Nil
  then show ?case by simp
next
  case (Cons l lines)
  show ?case
  proof (cases "of_line l n")
    case None
    with Cons.prems have "e \<in> set (extract_lines of_line lines (n + 1) acc)"
      by simp
    from Cons.IH[OF this] show ?thesis .
  next
    case (Some x)
    with Cons.prems have "e \<in> set (extract_lines of_line lines (n + 1) (acc @ [x]))"
      by simp
    from Cons.IH[OF this] Some show ?thesis
      by auto
  qed
qed

lemma extractExports_name:
  "e \<in> set (extractExports c) \<Longrightarrow> ex_kind e = Kind_default \<or> is_word_name (ex_name e)"
  unfolding extractExports_def
  by (auto dest!: extract_lines_from export_of_line_name)

lemma extractPythonExports_name:
  "e \<in> set (extractPythonExports c) \<Longrightarrow> ex_kind e = Kind_default \<or> is_word_name (ex_name e)"
  unfolding extractPythonExports_def
  by (auto dest!: extract_lines_from python_export_of_line_name)

lemma map_set_member:
  "(k', v') \<in> set (map_set k v m) \<Longrightarrow> (k', v') = (k, v) \<or> (k', v') \<in> set m"
  by (induction m) (auto split: if_splits)

lemma named_exports_map_set:
  assumes "named_exports m"
    and "\<And>e. e \<in> set es \<Longrightarrow> ex_kind e = Kind_default \<or> is_word_name (ex_name e)"
  shows "named_exports (map_set p es m)"
  unfolding named_exports_def
proof (clarify)
  fix p' es' e
  assume "(p', es') \<in> set (map_set p es m)" and e: "e \<in> set es'" and "\<not> is_word_name (ex_name e)"
  then have "(p', es') = (p, es) \<or> (p', es') \<in> set m"
    by (blast dest: map_set_member)
  with assms e \<open>\<not> is_word_name (ex_name e)\<close> show "ex_kind e = Kind_default"
    unfolding named_exports_def by blast
qed

lemma scan_files_named:
  "named_exports (snd maps) \<Longrightarrow> named_exports (snd (scan_files files maps))"
proof (induction files maps rule: scan_files.induct)
  case (1 maps)
  then show ?case by simp
next
  case (2 f files fileContents allExports)
  show ?case
  proof (cases "sf_read f")
    case None
    with 2 show ?thesis by simp
  next
    case (Some c)
    let ?exports = "(case sf_language f of
                            Some Typescript \<Rightarrow> extractExports c
                          | Some Javascript \<Rightarrow> extractExports c
                          | Some Python \<Rightarrow> extractPythonExports c
                          | None \<Rightarrow> [])"
    have n: "ex_kind e = Kind_default \<or> is_word_name (ex_name e)" if "e \<in> set ?exports" for e
    proof (cases "sf_language f")
      case None
      with that show ?thesis by simp
    next
      case (Some lang)
      with that show ?thesis
        by (cases lang) (auto dest: extractExports_name extractPythonExports_name)
    qed
    show ?thesis
    proof (cases "length ?exports > 0")
      case True
      have "named_exports (map_set (sf_path f) ?exports allExports)"
        using "2.prems" n by (intro named_exports_map_set) simp_all
      with "2.IH"(2)[OF Some refl refl True] Some True show ?thesis
        by (simp add: Let_def)
    next
      case False
      with "2.IH"(3)[OF Some refl refl False] "2.prems" Some show ?thesis
        by (simp add: Let_def)
    qed
  qed
qed

lemma matches_here_iff_whole_word:
  assumes "is_word_name name"
  shows "name_matches_here name prev s \<longleftrightarrow> whole_word_here name prev s"
proof (cases "startsWith s name")
  case False
  then show ?thesis
    by (simp add: name_matches_here_def whole_word_here_def)
next
  case True
  from assms obtain c cs where name: "name = c # cs" and c: "is_word_char c"
    by (cases name) (auto simp: is_word_name_def)
  from True name have "first_char s = Some c"
    by (cases s) (auto simp: startsWith_def first_char_def)
  moreover from assms have "is_word_char (last name)"
    by (auto simp: is_word_name_def list_all_iff)
  ultimately show ?thesis
    using True c name
    by (simp add: name_matches_here_def whole_word_here_def word_boundary_def is_word_def)
qed

lemma occurrences_skip_word:
  "list_all is_word_char w \<Longrightarrow> is_word prev \<Longrightarrow> w \<noteq> [] \<or> t \<noteq> [] \<Longrightarrow>
     whole_word_occurrences_from name prev (w @ t)
       = whole_word_occurrences_from name (if w = [] then prev else Some (last w)) t"
proof (induction w arbitrary: prev)
  case Nil
  then show ?case by simp
next
  case (Cons c w)
  have nm: "\<not> whole_word_here name prev (c # w @ t)"
    using Cons.prems(2) by (simp add: whole_word_here_def)
  show ?case
  proof (cases "w = [] \<and> t = []")
    case True
    have "\<not> whole_word_here name (Some c) []"
      using Cons.prems(1) by (simp add: whole_word_here_def is_word_def)
    with True nm show ?thesis by simp
  next
    case False
    have "whole_word_occurrences_from name (Some c) (w @ t)
       = whole_word_occurrences_from name (if w = [] then Some c else Some (last w)) t"
      using Cons.prems(1) False by (intro Cons.IH) (auto simp: is_word_def)
    with nm show ?thesis by simp
  qed
qed

lemma count_matches_eq_occurrences:
  assumes "is_word_name name"
  shows "count_matches name prev s = whole_word_occurrences_from name prev s"
  using assms
proof (induction name prev s rule: count_matches.induct)
  case (1 name prev s)
  note iff = matches_here_iff_whole_word[OF "1.prems"]
  from "1.prems" have ne: "name \<noteq> []" and wc: "list_all is_word_char name"
    by (simp_all add: is_word_name_def)
  show ?case
  proof (cases "name_matches_here name prev s")
    case True
    then have sw: "startsWith s name"
      by (simp add: name_matches_here_def)
    then have s: "s = name @ drop (length name) s"
      by (metis append_take_drop_id startsWith_def)
    obtain c cs where name: "name = c # cs"
      using ne by (cases name) auto
    have c: "is_word (Some c)" and cs: "list_all is_word_char cs"
      using wc name by (simp_all add: is_word_def)
    have "count_matches name prev s = 1 + count_matches name (Some (last name)) (drop (length name) s)"
      using True ne by (subst count_matches.simps) simp
    also have "\<dots> = 1 + whole_word_occurrences_from name (Some (last name)) (drop (length name) s)"
      using "1.IH"(2)[OF True ne "1.prems"] by simp
    finally have l: "count_matches name prev s
        = 1 + whole_word_occurrences_from name (Some (last name)) (drop (length name) s)" .
    define rest where "rest = drop (length name) s"
    have s': "s = c # cs @ rest"
      using s name by (simp add: rest_def)
    have wh: "whole_word_here name prev (c # cs @ rest)"
      using True iff s' by simp
    have "whole_word_occurrences_from name prev s
        = whole_word_occurrences_from name prev (c # cs @ rest)"
      by (simp only: s')
    also have "\<dots> = 1 + whole_word_occurrences_from name (Some c) (cs @ rest)"
      using wh by simp
    also have "whole_word_occurrences_from name (Some c) (cs @ rest)
        = whole_word_occurrences_from name (Some (last name)) rest"
    proof (cases "cs = [] \<and> rest = []")
      case True
      then show ?thesis using name by simp
    next
      case False
      then show ?thesis
        using occurrences_skip_word[OF cs c, of rest name] name by auto
    qed
    finally show ?thesis
      using l by (simp add: rest_def)
  next
    case False
    show ?thesis
    proof (cases s)
      case Nil
      with False iff show ?thesis
        by (subst count_matches.simps) simp
    next
      case (Cons c cs)
      have "count_matches name prev s = count_matches name (Some c) cs"
        using False Cons by (subst count_matches.simps) simp
      also have "\<dots> = whole_word_occurrences_from name (Some c) cs"
        using "1.IH"(3)[OF False Cons "1.prems"] .
      finally show ?thesis
        using False iff Cons by simp
    qed
  qed
qed

lemma check_exports_eq:
  "check_exports allContent path exports acc
     = acc @ map (unused_export_finding path)
         (filter (\<lambda>e. ex_kind e \<noteq> Kind_default \<and> count_matches (ex_name e) None allContent \<le> 1)
            exports)"
  by (induction exports arbitrary: acc) auto

lemma check_files_eq:
  "check_files allContent m acc
     = acc @ map (\<lambda>(p, e). unused_export_finding p e)
         (filter (\<lambda>(p, e). ex_kind e \<noteq> Kind_default \<and> count_matches (ex_name e) None allContent \<le> 1)
            (concat (map (\<lambda>(path, exports). map (Pair path) exports) m)))"
proof (induction m arbitrary: acc)
  case Nil
  then show ?case by simp
next
  case (Cons pe m)
  obtain path exports where pe: "pe = (path, exports)"
    by (cases pe)
  show ?case
    unfolding pe
    by (simp add: Cons.IH check_exports_eq filter_map comp_def)
qed

text \<open>
  C9. For a non-empty list of files, the findings of the static pass are, in order, one
  finding per extracted symbol that is not a default export and whose name occurs at
  most once as a whole word in the concatenated contents of the scanned files, and no
  other finding: a non-default symbol is flagged exactly when its name occurs at most
  once, and a default export never.
\<close>

theorem unused_export_iff_at_most_one_occurrence:
  assumes "files \<noteq> []"
  shows "static_pass repoRoot files
     = map (\<lambda>(path, exp). unused_export_finding path exp)
         (filter (\<lambda>(path, exp). ex_kind exp \<noteq> Kind_default
                    \<and> whole_word_occurrences (ex_name exp) (scanned_content files) \<le> 1)
            (extracted_symbols files))"
proof -
  obtain fileContents allExports where
    sc: "scan_files (take MAX_FILES files) ([], []) = (fileContents, allExports)"
    by (cases "scan_files (take MAX_FILES files) ([], [])")
  have "named_exports (snd (scan_files (take MAX_FILES files) ([], [])))"
    by (rule scan_files_named) (simp add: named_exports_def)
  then have named: "named_exports allExports"
    by (simp add: sc)
  let ?all = "join [CHR 10] (map snd fileContents)"
  let ?syms = "concat (map (\<lambda>(path, exports). map (Pair path) exports) allExports)"
  have same: "(ex_kind e \<noteq> Kind_default \<and> count_matches (ex_name e) None ?all \<le> 1)
      = (ex_kind e \<noteq> Kind_default \<and> whole_word_occurrences (ex_name e) ?all \<le> 1)"
    if "(p, e) \<in> set ?syms" for p e
  proof (cases "ex_kind e = Kind_default")
    case True
    then show ?thesis by simp
  next
    case False
    from that named have "ex_kind e = Kind_default \<or> is_word_name (ex_name e)"
      by (auto simp: named_exports_def)
    with False have "is_word_name (ex_name e)"
      by simp
    then show ?thesis
      by (simp add: count_matches_eq_occurrences whole_word_occurrences_def)
  qed
  have "filter (\<lambda>(p, e). ex_kind e \<noteq> Kind_default \<and> count_matches (ex_name e) None ?all \<le> 1) ?syms
      = filter (\<lambda>(p, e). ex_kind e \<noteq> Kind_default \<and> whole_word_occurrences (ex_name e) ?all \<le> 1) ?syms"
  proof (rule filter_cong)
    fix x assume x: "x \<in> set ?syms"
    obtain p e where pe: "x = (p, e)" by (cases x)
    from same[of p e] x show "(case x of (p, e) \<Rightarrow>
          ex_kind e \<noteq> Kind_default \<and> count_matches (ex_name e) None ?all \<le> 1)
        = (case x of (p, e) \<Rightarrow>
          ex_kind e \<noteq> Kind_default \<and> whole_word_occurrences (ex_name e) ?all \<le> 1)"
      unfolding pe by simp
  qed simp
  with assms show ?thesis
    by (simp add: static_pass_def sc check_files_eq extracted_symbols_def scanned_content_def)
qed

lemmas matcher_defs = lit_def spaces1_def word1_def keyword_name_def optional_def after_export_def
  default_word_def startsWith_def is_space_def is_word_char_def

lemma example_symbols:
  "extracted_symbols example_files
     = [(''a.ts'', \<lparr>ex_name = ''used'', ex_line = 1, ex_kind = Kind_function\<rparr>),
        (''a.ts'', \<lparr>ex_name = ''unused'', ex_line = 2, ex_kind = Kind_variable\<rparr>),
        (''a.ts'', \<lparr>ex_name = ''default'', ex_line = 3, ex_kind = Kind_default\<rparr>)]"
  by (simp add: extracted_symbols_def example_files_def MAX_FILES_def extractExports_def
      export_of_line_def matcher_defs Let_def)

lemma example_content:
  "scanned_content example_files
     = ''export function used() {}'' @ [CHR 10] @ ''export const unused = 1''
       @ [CHR 10] @ ''export default used'' @ [CHR 10] @ ''used()''"
  by (simp add: scanned_content_def example_files_def MAX_FILES_def extractExports_def
      export_of_line_def matcher_defs Let_def)

lemma example_counts:
  "whole_word_occurrences ''used'' (scanned_content example_files) = 3"
  "whole_word_occurrences ''unused'' (scanned_content example_files) = 1"
  unfolding example_content
  by (simp_all add: whole_word_occurrences_def whole_word_here_def startsWith_def is_word_def
      first_char_def is_word_char_def)

theorem unused_export_iff_at_most_one_occurrence_witness:
  "example_files \<noteq> []
   \<and> static_pass ''/repo'' example_files
       = [unused_export_finding ''a.ts''
            \<lparr>ex_name = ''unused'', ex_line = 2, ex_kind = Kind_variable\<rparr>]"
proof -
  have h: "example_files \<noteq> []"
    by (simp add: example_files_def)
  from unused_export_iff_at_most_one_occurrence[OF h, of "''/repo''"]
  have "static_pass ''/repo'' example_files
     = map (\<lambda>(path, exp). unused_export_finding path exp)
         (filter (\<lambda>(path, exp). ex_kind exp \<noteq> Kind_default
                    \<and> whole_word_occurrences (ex_name exp) (scanned_content example_files) \<le> 1)
            (extracted_symbols example_files))" .
  also have "\<dots> = [unused_export_finding ''a.ts''
            \<lparr>ex_name = ''unused'', ex_line = 2, ex_kind = Kind_variable\<rparr>]"
    unfolding example_symbols
    by (simp add: example_counts)
  finally show ?thesis
    using h by simp
qed

subsection \<open>Parsers of the model protocols and of conflict markers\<close>

















text \<open>The test of conflicts.test.ts for a missing separator.\<close>

lemma missing_separator_test:
  "parseConflictMarkers (join [CHR 10] [''<<<<<<< HEAD'', ''orphan content'', ''>>>>>>> feature'']) = []"
  by (simp add: parseConflictMarkers_def parse_markers_from.simps parseOneHunk_def
      startsWith_def MARKER_OURS_def MARKER_SEPARATOR_def MARKER_THEIRS_def trim_def is_space_def
      Let_def)

end
